theory Spec2Isabelle
  imports Main "HOL-Library.Word" "HOL-Library.Sublist"
begin

section \<open>JavaScript strings\<close>

text \<open>
  A JavaScript string is a sequence of UTF-16 code units, and \<open>length\<close>, \<open>trim\<close>,
  \<open>includes\<close> and the regular expressions of the components (none has the \<open>u\<close> flag)
  all work on code units. A code unit is a 16-bit word. \<open>js\<close> turns a literal of the
  source into its code units.
\<close>

type_synonym jschar = "16 word"
type_synonym jsstring = "jschar list"

definition js :: "string \<Rightarrow> jsstring" where
  "js s = map of_char s"

definition is_digit :: "jschar \<Rightarrow> bool" where
  \<comment> \<open>the class \<open>\d\<close>\<close>
  "is_digit c = (0x30 \<le> c \<and> c \<le> 0x39)"

definition is_space :: "jschar \<Rightarrow> bool" where
  \<comment> \<open>the class \<open>\s\<close>: WhiteSpace and LineTerminator of ECMAScript, which is also what
      \<open>String.prototype.trim\<close> strips\<close>
  "is_space c =
     (c = 0x09 \<or> c = 0x0A \<or> c = 0x0B \<or> c = 0x0C \<or> c = 0x0D \<or> c = 0x20 \<or> c = 0xA0
      \<or> c = 0x1680 \<or> (0x2000 \<le> c \<and> c \<le> 0x200A) \<or> c = 0x2028 \<or> c = 0x2029
      \<or> c = 0x202F \<or> c = 0x205F \<or> c = 0x3000 \<or> c = 0xFEFF)"

definition is_upper :: "jschar \<Rightarrow> bool" where
  "is_upper c = (0x41 \<le> c \<and> c \<le> 0x5A)"

definition is_lower :: "jschar \<Rightarrow> bool" where
  "is_lower c = (0x61 \<le> c \<and> c \<le> 0x7A)"

definition is_alpha :: "jschar \<Rightarrow> bool" where
  "is_alpha c = (is_upper c \<or> is_lower c)"

definition trim :: "jsstring \<Rightarrow> jsstring" where
  "trim s = rev (dropWhile is_space (rev (dropWhile is_space s)))"

fun startsWith :: "jsstring \<Rightarrow> jsstring \<Rightarrow> bool" where
  "startsWith s [] = True"
| "startsWith [] (p # ps) = False"
| "startsWith (c # cs) (p # ps) = (c = p \<and> startsWith cs ps)"

fun includes_str :: "jsstring \<Rightarrow> jsstring \<Rightarrow> bool" where
  \<comment> \<open>\<open>s.includes(t)\<close>\<close>
  "includes_str [] t = (t = [])"
| "includes_str (c # cs) t = (startsWith (c # cs) t \<or> includes_str cs t)"

definition or_empty :: "jsstring \<Rightarrow> jsstring" where
  \<comment> \<open>\<open>s || ''\<close> on a string: the empty string is the only falsy one\<close>
  "or_empty s = (if s = [] then [] else s)"

section \<open>Regular expressions of the contact handlers\<close>

text \<open>
  Every regular expression of the contact handlers is a sequence of greedy quantified
  character classes (a literal character is a class with one member, taken once).
  \<open>match_seq\<close> is the backtracking matcher of ECMAScript on this fragment, anchored at
  the start of its input: each quantifier first takes as many characters as it can and
  gives them back one at a time while the rest of the pattern fails. It returns the
  length of the match. \<open>re_match\<close> is \<open>s.match(re)[0]\<close> for a pattern without the
  \<open>g\<close> flag: the match at the leftmost position that has one.
\<close>

datatype quant = Quant (cls: "jschar \<Rightarrow> bool") (qmin: nat) (qmax: "nat option")

fun first_some :: "('a \<Rightarrow> 'b option) \<Rightarrow> 'a list \<Rightarrow> 'b option" where
  "first_some f [] = None"
| "first_some f (x # xs) = (case f x of Some y \<Rightarrow> Some y | None \<Rightarrow> first_some f xs)"

fun match_seq :: "quant list \<Rightarrow> jsstring \<Rightarrow> nat option" where
  "match_seq [] s = Some 0"
| "match_seq (q # qs) s =
     (let run = length (takeWhile (cls q) s);
          hi = (case qmax q of None \<Rightarrow> run | Some m \<Rightarrow> min m run)
      in first_some (\<lambda>n. map_option (\<lambda>k. n + k) (match_seq qs (drop n s)))
           (rev [qmin q ..< Suc hi]))"

fun re_match :: "quant list \<Rightarrow> jsstring \<Rightarrow> jsstring option" where
  "re_match qs [] = map_option (\<lambda>n. []) (match_seq qs [])"
| "re_match qs (c # cs) =
     (case match_seq qs (c # cs) of
        Some n \<Rightarrow> Some (take n (c # cs))
      | None \<Rightarrow> re_match qs cs)"

definition truthy_match :: "jsstring option \<Rightarrow> bool" where
  \<comment> \<open>\<open>m && m[0]\<close>: there is a match and its text is not empty\<close>
  "truthy_match m = (case m of None \<Rightarrow> False | Some t \<Rightarrow> t \<noteq> [])"

definition phone_cls :: "jschar \<Rightarrow> bool" where
  \<comment> \<open>\<open>[\d\s-]\<close>\<close>
  "phone_cls c = (is_digit c \<or> is_space c \<or> c = 0x2D)"

definition phone_re :: "quant list" where
  \<comment> \<open>\<open>/(\+?[\d\s-]{10,})/\<close>\<close>
  "phone_re = [Quant (\<lambda>c. c = 0x2B) 0 (Some 1), Quant phone_cls 10 None]"

definition email_local_cls :: "jschar \<Rightarrow> bool" where
  \<comment> \<open>\<open>[a-zA-Z0-9._%+-]\<close>; the \<open>i\<close> flag adds no code unit to a class that has both
      cases of every letter\<close>
  "email_local_cls c =
     (is_alpha c \<or> is_digit c \<or> c = 0x2E \<or> c = 0x5F \<or> c = 0x25 \<or> c = 0x2B \<or> c = 0x2D)"

definition email_domain_cls :: "jschar \<Rightarrow> bool" where
  \<comment> \<open>\<open>[a-zA-Z0-9.-]\<close>\<close>
  "email_domain_cls c = (is_alpha c \<or> is_digit c \<or> c = 0x2E \<or> c = 0x2D)"

definition email_re :: "quant list" where
  \<comment> \<open>\<open>/([a-zA-Z0-9._%+-]+@[a-zA-Z0-9.-]+\.[a-zA-Z]{2,})/i\<close>\<close>
  "email_re =
     [Quant email_local_cls 1 None, Quant (\<lambda>c. c = 0x40) 1 (Some 1),
      Quant email_domain_cls 1 None, Quant (\<lambda>c. c = 0x2E) 1 (Some 1),
      Quant is_alpha 2 None]"

text \<open>
  The words of a pattern, independently of any matching order: a word is a
  concatenation of one block per quantifier, each block made of characters of the class
  and of a length the quantifier allows. A string contains a match when one of its
  substrings is such a word.
\<close>

fun lang :: "quant list \<Rightarrow> jsstring \<Rightarrow> bool" where
  "lang [] w = (w = [])"
| "lang (q # qs) w =
     (\<exists>u v. w = u @ v \<and> list_all (cls q) u \<and> qmin q \<le> length u
        \<and> (case qmax q of None \<Rightarrow> True | Some m \<Rightarrow> length u \<le> m) \<and> lang qs v)"

definition contains_match :: "quant list \<Rightarrow> jsstring \<Rightarrow> bool" where
  "contains_match qs s = (\<exists>pre w post. s = pre @ w @ post \<and> lang qs w)"

section \<open>encodeURIComponent\<close>

text \<open>
  A thrown exception is an error object: its constructor and its \<open>message\<close>. The
  message of \<open>URIError\<close> is the one of V8.
\<close>

datatype error_kind = URIError | TypeError | SyntaxError | Error

datatype js_error = Exn (kind_of: error_kind) (message_of: jsstring)

definition uri_malformed :: js_error where
  "uri_malformed = Exn URIError (js ''URI malformed'')"

definition uri_unescaped :: "jschar \<Rightarrow> bool" where
  \<comment> \<open>letters, digits and \<open>- _ . ! ~ * ' ( )\<close>\<close>
  "uri_unescaped c =
     (is_alpha c \<or> is_digit c \<or> c = 0x2D \<or> c = 0x5F \<or> c = 0x2E \<or> c = 0x21 \<or> c = 0x7E
      \<or> c = 0x2A \<or> c = 0x27 \<or> c = 0x28 \<or> c = 0x29)"

definition hex_digit :: "nat \<Rightarrow> jschar" where
  "hex_digit d = (if d < 10 then 0x30 + of_nat d else 0x41 + of_nat (d - 10))"

definition percent :: "nat \<Rightarrow> jsstring" where
  "percent b = [0x25, hex_digit (b div 16), hex_digit (b mod 16)]"

definition utf8 :: "nat \<Rightarrow> nat list" where
  "utf8 v =
     (if v < 0x80 then [v]
      else if v < 0x800 then [0xC0 + v div 64, 0x80 + v mod 64]
      else if v < 0x10000 then [0xE0 + v div 4096, 0x80 + (v div 64) mod 64, 0x80 + v mod 64]
      else [0xF0 + v div 262144, 0x80 + (v div 4096) mod 64, 0x80 + (v div 64) mod 64,
            0x80 + v mod 64])"

definition escape :: "nat \<Rightarrow> jsstring" where
  "escape v = concat (map percent (utf8 v))"

definition is_lead :: "jschar \<Rightarrow> bool" where
  "is_lead c = (0xD800 \<le> c \<and> c \<le> 0xDBFF)"

definition is_trail :: "jschar \<Rightarrow> bool" where
  "is_trail c = (0xDC00 \<le> c \<and> c \<le> 0xDFFF)"

fun encodeURIComponent :: "jsstring \<Rightarrow> js_error + jsstring" where
  "encodeURIComponent [] = Inr []"
| "encodeURIComponent (c # cs) =
     (if uri_unescaped c then map_sum id (\<lambda>r. c # r) (encodeURIComponent cs)
      else if is_trail c then Inl uri_malformed
      else if \<not> is_lead c then map_sum id (\<lambda>r. escape (unat c) @ r) (encodeURIComponent cs)
      else (case cs of
              [] \<Rightarrow> Inl uri_malformed
            | d # ds \<Rightarrow>
                if \<not> is_trail d then Inl uri_malformed
                else map_sum id
                       (\<lambda>r. escape ((unat c - 0xD800) * 0x400 + (unat d - 0xDC00) + 0x10000) @ r)
                       (encodeURIComponent ds)))"

section \<open>Contact handlers of CustomersPage\<close>

record customer =
  cust_id :: int
  name :: jsstring
  contact_info :: jsstring
  "notes" :: "jsstring option"
  last_contacted :: "jsstring option"
  user_id :: int

text \<open>
  What a handler does to the browser, in order. A handler that throws does nothing
  else: every call that can throw comes before the handler's first effect.
\<close>

datatype effect =
    SetLocationHref jsstring
  | WindowOpen jsstring jsstring
  | Alert jsstring
  | ClipboardWriteText jsstring
  | DocumentWrite jsstring
  | DocumentClose

definition handleCall :: "customer \<Rightarrow> js_error + effect list" where
  "handleCall customer =
     (let info = trim (or_empty (contact_info customer));
          phoneMatch = re_match phone_re info
      in case (if truthy_match phoneMatch then phoneMatch else None) of
           Some m \<Rightarrow>
             (let phoneNumber = trim m
              in Inr [SetLocationHref
                        (js ''tel:'' @ filter (\<lambda>c. \<not> (is_space c \<or> c = 0x2D)) phoneNumber)])
         | None \<Rightarrow>
             if includes_str info (js ''@'') then
               (let subject = js ''Following up - '' @ name customer;
                    body = js ''Dear '' @ name customer
                      @ js '',\<newline>\<newline>I hope this email finds you well.\<newline>\<newline>I'm reaching out to follow up on our previous conversation.\<newline>\<newline>Best regards,\<newline>[Your Name]''
                in case encodeURIComponent subject of
                     Inl e \<Rightarrow> Inl e
                   | Inr encodedSubject \<Rightarrow>
                       (case encodeURIComponent body of
                          Inl e \<Rightarrow> Inl e
                        | Inr encodedBody \<Rightarrow>
                            Inr [SetLocationHref
                                   (js ''mailto:'' @ info @ js ''?subject='' @ encodedSubject
                                    @ js ''&body='' @ encodedBody)]))
             else Inr [ClipboardWriteText info, Alert (js ''Contact copied to clipboard'')])"

definition whatsapp_text :: "customer \<Rightarrow> jsstring" where
  \<comment> \<open>the greeting of \<open>handleWhatsApp\<close>\<close>
  "whatsapp_text customer =
     js ''Hello '' @ name customer
     @ js ''! I'm reaching out to discuss how we can help with your needs. Would you have some time to chat?''"

definition sms_text :: "customer \<Rightarrow> jsstring" where
  \<comment> \<open>the text that \<open>handleSMS\<close> encodes\<close>
  "sms_text customer =
     js ''Hi '' @ name customer
     @ js '', this is a follow-up regarding our previous conversation. Please let me know a good time to connect. Thanks!''"

definition whatsapp_number :: "jsstring \<Rightarrow> jsstring" where
  \<comment> \<open>\<open>formattedNumber\<close> of \<open>handleWhatsApp\<close>\<close>
  "whatsapp_number phoneNumber =
     (if startsWith phoneNumber (js ''+'')
      then filter (\<lambda>c. is_digit c \<or> c = 0x2B) phoneNumber
      else js ''+91'' @ filter is_digit phoneNumber)"

definition handleWhatsApp :: "customer \<Rightarrow> js_error + effect list" where
  "handleWhatsApp customer =
     (let info = trim (or_empty (contact_info customer));
          phoneMatch = re_match phone_re info
      in case (if truthy_match phoneMatch then phoneMatch else None) of
           Some m \<Rightarrow>
             (let phoneNumber = trim m;
                  formattedNumber = whatsapp_number phoneNumber;
                  message = whatsapp_text customer
              in case encodeURIComponent message of
                   Inl e \<Rightarrow> Inl e
                 | Inr encodedMessage \<Rightarrow>
                     Inr [WindowOpen
                            (js ''https://wa.me/'' @ formattedNumber @ js ''?text='' @ encodedMessage)
                            (js ''_blank'')])
         | None \<Rightarrow> Inr [Alert (js ''Invalid phone number for WhatsApp'')])"

definition handleSMS :: "customer \<Rightarrow> js_error + effect list" where
  "handleSMS customer =
     (let info = trim (or_empty (contact_info customer));
          phoneMatch = re_match phone_re info
      in case (if truthy_match phoneMatch then phoneMatch else None) of
           Some m \<Rightarrow>
             (let phoneNumber = trim m;
                  formattedNumber = filter (\<lambda>c. \<not> (is_space c \<or> c = 0x2D)) phoneNumber
              in case encodeURIComponent (sms_text customer) of
                   Inl e \<Rightarrow> Inl e
                 | Inr message \<Rightarrow>
                     Inr [WindowOpen (js ''sms:'' @ formattedNumber @ js ''?body='' @ message)
                            (js ''_blank'')])
         | None \<Rightarrow> Inr [Alert (js ''Invalid phone number for SMS'')])"

section \<open>Contact handlers of CustomerDetailPage\<close>

text \<open>
  The detail page keeps its customer in a state that is \<open>null\<close> until the first fetch
  has answered; each handler returns at once on \<open>null\<close>.
\<close>

definition detail_whatsapp_text :: "customer \<Rightarrow> jsstring" where
  "detail_whatsapp_text customer =
     js ''Hello '' @ name customer
     @ js '', I'm reaching out regarding your insurance needs. How may I assist you today?''"

definition detail_sms_text :: "customer \<Rightarrow> jsstring" where
  "detail_sms_text customer =
     js ''Hi '' @ name customer
     @ js '', this is a follow-up on our conversation. Could we schedule a quick call to discuss your needs in more detail? Thanks!''"

definition detail_handleCall :: "customer option \<Rightarrow> js_error + effect list" where
  "detail_handleCall cust =
     (case cust of
        None \<Rightarrow> Inr []
      | Some customer \<Rightarrow>
          (let info = trim (or_empty (contact_info customer));
               phoneMatch = re_match phone_re info
           in case (if truthy_match phoneMatch then phoneMatch else None) of
                Some m \<Rightarrow>
                  (let phoneNumber = trim m
                   in Inr [SetLocationHref
                             (js ''tel:'' @ filter (\<lambda>c. \<not> (is_space c \<or> c = 0x2D)) phoneNumber)])
              | None \<Rightarrow>
                  if includes_str info (js ''@'') then
                    (let emailMatch = re_match email_re info
                     in case (if truthy_match emailMatch then emailMatch else None) of
                          Some e \<Rightarrow> Inr [SetLocationHref (js ''mailto:'' @ trim e)]
                        | None \<Rightarrow> Inr [])
                  else Inr [ClipboardWriteText info, Alert (js ''Contact copied to clipboard'')]))"

definition detail_handleWhatsApp :: "customer option \<Rightarrow> js_error + effect list" where
  "detail_handleWhatsApp cust =
     (case cust of
        None \<Rightarrow> Inr []
      | Some customer \<Rightarrow>
          (let info = trim (or_empty (contact_info customer));
               phoneMatch = re_match phone_re info
           in case (if truthy_match phoneMatch then phoneMatch else None) of
                Some m \<Rightarrow>
                  (let phoneNumber = trim m;
                       formattedNumber = whatsapp_number phoneNumber;
                       message = detail_whatsapp_text customer
                   in case encodeURIComponent message of
                        Inl e \<Rightarrow> Inl e
                      | Inr encodedMessage \<Rightarrow>
                          Inr [WindowOpen
                                 (js ''https://wa.me/'' @ formattedNumber @ js ''?text=''
                                  @ encodedMessage)
                                 (js ''_blank'')])
              | None \<Rightarrow> Inr [Alert (js ''Invalid phone number for WhatsApp'')]))"

definition detail_handleSMS :: "customer option \<Rightarrow> js_error + effect list" where
  "detail_handleSMS cust =
     (case cust of
        None \<Rightarrow> Inr []
      | Some customer \<Rightarrow>
          (let info = trim (or_empty (contact_info customer));
               phoneMatch = re_match phone_re info
           in case (if truthy_match phoneMatch then phoneMatch else None) of
                Some m \<Rightarrow>
                  (let phoneNumber = trim m;
                       formattedNumber = filter (\<lambda>c. \<not> (is_space c \<or> c = 0x2D)) phoneNumber
                   in case encodeURIComponent (detail_sms_text customer) of
                        Inl e \<Rightarrow> Inl e
                      | Inr message \<Rightarrow>
                          Inr [WindowOpen (js ''sms:'' @ formattedNumber @ js ''?body='' @ message)
                                 (js ''_blank'')])
              | None \<Rightarrow> Inr [Alert (js ''Invalid phone number for SMS'')]))"

section \<open>The customer list\<close>

text \<open>
  \<open>toLowerCase\<close> is the platform's Unicode lower-casing; the filter takes it as a
  parameter. \<open>ascii_lower\<close> is its restriction to ASCII.
\<close>

definition filteredCustomers ::
  "(jsstring \<Rightarrow> jsstring) \<Rightarrow> customer list \<Rightarrow> jsstring \<Rightarrow> customer list" where
  "filteredCustomers toLowerCase customers searchTerm =
     filter (\<lambda>customer.
        includes_str (toLowerCase (name customer)) (toLowerCase searchTerm)
        \<or> includes_str (toLowerCase (contact_info customer)) (toLowerCase searchTerm))
       customers"

definition ascii_lower :: "jsstring \<Rightarrow> jsstring" where
  "ascii_lower s = map (\<lambda>c. if is_upper c then c + 0x20 else c) s"

section \<open>ApiService\<close>

text \<open>
  Values that cross the API: what \<open>JSON.stringify\<close> takes and \<open>response.json()\<close>
  gives. Identifiers are integers, as the methods' signatures declare them, and a
  template literal renders one in decimal.
\<close>

datatype jsval =
    JUndefined
  | JNull
  | JBool bool
  | JNum int
  | JStr jsstring
  | JArr "jsval list"
  | JObj "(jsstring \<times> jsval) list"

datatype body = JSON_stringify jsval | FormData "(jsstring \<times> jsstring) list"

record request =
  url :: jsstring
  http_method :: jsstring
  headers :: "(jsstring \<times> jsstring) list"
  req_body :: "body option"

record response =
  status :: nat
  statusText :: jsstring
  body_text :: jsstring

definition ok :: "response \<Rightarrow> bool" where
  \<comment> \<open>\<open>response.ok\<close>: the status is in the range 200 to 299\<close>
  "ok r = (200 \<le> status r \<and> status r \<le> 299)"

text \<open>
  The environment of the client: \<open>fetch\<close> answers a request with a response or rejects
  (no connection), \<open>JSON_parse\<close> is what \<open>response.json()\<close> makes of a body (it throws
  on a body that is not JSON), \<open>parseInt\<close> gives no number for \<open>NaN\<close>.
\<close>

record env =
  fetch :: "request \<Rightarrow> js_error + response"
  JSON_parse :: "jsstring \<Rightarrow> js_error + jsval"
  parseInt :: "jsstring \<Rightarrow> int option"
  stored_user_id :: "jsstring \<Rightarrow> js_error + int option"

fun nat_to_str :: "nat \<Rightarrow> jsstring" where
  "nat_to_str n =
     (if n < 10 then [0x30 + of_nat n] else nat_to_str (n div 10) @ [0x30 + of_nat (n mod 10)])"

definition int_to_str :: "int \<Rightarrow> jsstring" where
  "int_to_str i = (if i < 0 then 0x2D # nat_to_str (nat (- i)) else nat_to_str (nat i))"

definition API_BASE_URL :: jsstring where
  "API_BASE_URL = js ''http://localhost:8000''"

definition get :: "jsstring \<Rightarrow> request" where
  \<comment> \<open>\<open>fetch(url)\<close>\<close>
  "get u = \<lparr>url = API_BASE_URL @ u, http_method = js ''GET'', headers = [], req_body = None\<rparr>"

definition send_json :: "string \<Rightarrow> jsstring \<Rightarrow> jsval \<Rightarrow> request" where
  \<comment> \<open>\<open>fetch(url, {method, headers: {'Content-Type': 'application/json'},
      body: JSON.stringify(data)})\<close>\<close>
  "send_json m u data =
     \<lparr>url = API_BASE_URL @ u, http_method = js m,
      headers = [(js ''Content-Type'', js ''application/json'')],
      req_body = Some (JSON_stringify data)\<rparr>"

text \<open>
  The methods of \<open>ApiService\<close> that return \<open>response.json()\<close>, each with its
  arguments; \<open>previewWebsite\<close>, which returns \<open>response.text()\<close>, follows on its own.
\<close>

datatype (plugins only: code) api_method =
    login jsval
  | getCustomerInteractions int
  | getCustomerDetailedInteractions int int
  | createCustomerInteraction jsval
  | updateCustomerInteraction int jsval
  | deleteCustomerInteraction int
  | getUpcomingFollowups int "int option"
  | getCustomer int
  | contactCustomer int jsval
  | getReferralLink int
  | signup jsval
  | getProfile jsstring
  | updateProfile jsstring jsval
  | uploadProfileImage jsstring "(jsstring \<times> jsstring) list"
  | getBusinessTypes
  | createCustomer jsval
  | getCustomers int
  | searchCustomers int jsstring
  | getReferrals int
  | getReferralStats int
  | getRewards int
  | getDashboardMetrics int
  | getReports int
  | sendMessage jsval
  | getMessageTemplates
  | getConversation int int
  | getAIAssist jsstring jsval
  | generatePersonalizedMessage int int jsstring
  | getCustomerInsights int int
  | setupAutoResponses int "jsval option"
  | generateMarketingContent jsval
  | generateAIImage jsstring
  | getWebsiteInfo int
  | getWebsiteTemplates
  | applyWebsiteTemplate int jsstring
  | generateWebsiteHtml int jsstring
  | getSocialProfiles int
  | getDigitalPresenceAnalytics int

primrec request_of :: "api_method \<Rightarrow> request" where
  "request_of (login data) = send_json ''POST'' (js ''/auth/login'') data"
| "request_of (getCustomerInteractions customer_id) =
     get (js ''/customers/'' @ int_to_str customer_id @ js ''/interactions'')"
| "request_of (getCustomerDetailedInteractions customer_id uid) =
     get (js ''/interactions/?customer_id='' @ int_to_str customer_id @ js ''&user_id=''
          @ int_to_str uid)"
| "request_of (createCustomerInteraction data) = send_json ''POST'' (js ''/interactions/'') data"
| "request_of (updateCustomerInteraction interaction_id data) =
     send_json ''PUT'' (js ''/interactions/'' @ int_to_str interaction_id) data"
| "request_of (deleteCustomerInteraction interaction_id) =
     (get (js ''/interactions/'' @ int_to_str interaction_id))\<lparr>http_method := js ''DELETE''\<rparr>"
| "request_of (getUpcomingFollowups uid days) =
     get (js ''/interactions/upcoming-followups?user_id='' @ int_to_str uid @ js ''&days=''
          @ int_to_str (case days of None \<Rightarrow> 7 | Some d \<Rightarrow> d))"
| "request_of (getCustomer customer_id) = get (js ''/customers/'' @ int_to_str customer_id)"
| "request_of (contactCustomer customer_id data) =
     send_json ''POST'' (js ''/customers/'' @ int_to_str customer_id @ js ''/contact'') data"
| "request_of (getReferralLink uid) = get (js ''/referrals/link/'' @ int_to_str uid)"
| "request_of (signup data) = send_json ''POST'' (js ''/auth/signup'') data"
| "request_of (getProfile uid) = get (js ''/auth/profile?current_user_id='' @ uid)"
| "request_of (updateProfile uid profileData) =
     send_json ''PUT'' (js ''/auth/profile?current_user_id='' @ uid) profileData"
| "request_of (uploadProfileImage uid formData) =
     (get (js ''/auth/profile/upload-image?current_user_id='' @ uid))
       \<lparr>http_method := js ''POST'', req_body := Some (FormData formData)\<rparr>"
| "request_of getBusinessTypes = get (js ''/auth/business-types'')"
| "request_of (createCustomer data) = send_json ''POST'' (js ''/customers/'') data"
| "request_of (getCustomers uid) = get (js ''/customers/?user_id='' @ int_to_str uid)"
| "request_of (searchCustomers uid query) =
     get (js ''/customers/search?user_id='' @ int_to_str uid @ js ''&query='' @ query)"
| "request_of (getReferrals uid) = get (js ''/referrals/?user_id='' @ int_to_str uid)"
| "request_of (getReferralStats uid) = get (js ''/referrals/stats?user_id='' @ int_to_str uid)"
| "request_of (getRewards uid) = get (js ''/referrals/rewards?user_id='' @ int_to_str uid)"
| "request_of (getDashboardMetrics uid) = get (js ''/dashboard?user_id='' @ int_to_str uid)"
| "request_of (getReports uid) = get (js ''/dashboard/reports?user_id='' @ int_to_str uid)"
| "request_of (sendMessage messageData) = send_json ''POST'' (js ''/messaging/send'') messageData"
| "request_of getMessageTemplates = get (js ''/messaging/message-templates'')"
| "request_of (getConversation customer_id uid) =
     get (js ''/messaging/conversations/'' @ int_to_str customer_id @ js ''?user_id=''
          @ int_to_str uid)"
| "request_of (getAIAssist prompt context) =
     send_json ''POST'' (js ''/ai/assist'')
       (JObj [(js ''prompt'', JStr prompt), (js ''context'', context)])"
| "request_of (generatePersonalizedMessage customer_id uid message_type) =
     send_json ''POST'' (js ''/ai/generate-message'')
       (JObj [(js ''customer_id'', JNum customer_id), (js ''user_id'', JNum uid),
              (js ''message_type'', JStr message_type)])"
| "request_of (getCustomerInsights customer_id uid) =
     send_json ''POST'' (js ''/ai/customer-insights'')
       (JObj [(js ''customer_id'', JNum customer_id), (js ''user_id'', JNum uid)])"
| "request_of (setupAutoResponses uid responses) =
     send_json ''POST'' (js ''/ai/auto-responses'')
       (JObj [(js ''user_id'', JNum uid),
              (js ''responses'', (case responses of None \<Rightarrow> JObj [] | Some r \<Rightarrow> r))])"
| "request_of (generateMarketingContent data) =
     send_json ''POST'' (js ''/ai/marketing-content'') data"
| "request_of (generateAIImage prompt) =
     send_json ''POST'' (js ''/ai/generate-image'')
       (JObj [(js ''prompt'', JStr prompt),
              (js ''model'', JStr (js ''gemini-2.5-flash-image-preview''))])"
| "request_of (getWebsiteInfo uid) = get (js ''/digital-presence/website/'' @ int_to_str uid)"
| "request_of getWebsiteTemplates = get (js ''/digital-presence/templates'')"
| "request_of (applyWebsiteTemplate uid template_id) =
     send_json ''POST'' (js ''/digital-presence/website/'' @ int_to_str uid @ js ''/template'')
       (JObj [(js ''template_id'', JStr template_id)])"
| "request_of (generateWebsiteHtml uid template_id) =
     get (js ''/digital-presence/website/'' @ int_to_str uid @ js ''/generate/'' @ template_id)"
| "request_of (getSocialProfiles uid) =
     get (js ''/digital-presence/social-profiles/'' @ int_to_str uid)"
| "request_of (getDigitalPresenceAnalytics uid) =
     get (js ''/digital-presence/analytics/'' @ int_to_str uid)"

primrec failure_text :: "api_method \<Rightarrow> jsstring" where
  \<comment> \<open>how the message of the method's \<open>Error\<close> begins\<close>
  "failure_text (login _) = js ''Login failed''"
| "failure_text (getCustomerInteractions _) = js ''Failed to fetch interactions''"
| "failure_text (getCustomerDetailedInteractions _ _) =
     js ''Failed to fetch detailed interactions''"
| "failure_text (createCustomerInteraction _) = js ''Failed to create interaction''"
| "failure_text (updateCustomerInteraction _ _) = js ''Failed to update interaction''"
| "failure_text (deleteCustomerInteraction _) = js ''Failed to delete interaction''"
| "failure_text (getUpcomingFollowups _ _) = js ''Failed to fetch followups''"
| "failure_text (getCustomer _) = js ''Failed to fetch customer''"
| "failure_text (contactCustomer _ _) = js ''Failed to contact customer''"
| "failure_text (getReferralLink _) = js ''Failed to fetch referral link''"
| "failure_text (signup _) = js ''Signup failed''"
| "failure_text (getProfile _) = js ''Failed to fetch profile''"
| "failure_text (updateProfile _ _) = js ''Failed to update profile''"
| "failure_text (uploadProfileImage _ _) = js ''Failed to upload image''"
| "failure_text getBusinessTypes = js ''Failed to fetch business types''"
| "failure_text (createCustomer _) = js ''Failed to create customer''"
| "failure_text (getCustomers _) = js ''Failed to fetch customers''"
| "failure_text (searchCustomers _ _) = js ''Failed to search customers''"
| "failure_text (getReferrals _) = js ''Failed to fetch referrals''"
| "failure_text (getReferralStats _) = js ''Failed to fetch referral stats''"
| "failure_text (getRewards _) = js ''Failed to fetch rewards''"
| "failure_text (getDashboardMetrics _) = js ''Failed to fetch dashboard metrics''"
| "failure_text (getReports _) = js ''Failed to fetch reports''"
| "failure_text (sendMessage _) = js ''Failed to send message''"
| "failure_text getMessageTemplates = js ''Failed to fetch message templates''"
| "failure_text (getConversation _ _) = js ''Failed to fetch conversation''"
| "failure_text (getAIAssist _ _) = js ''Failed to get AI assistance''"
| "failure_text (generatePersonalizedMessage _ _ _) = js ''Failed to generate message''"
| "failure_text (getCustomerInsights _ _) = js ''Failed to get customer insights''"
| "failure_text (setupAutoResponses _ _) = js ''Failed to setup auto-responses''"
| "failure_text (generateMarketingContent _) = js ''Failed to generate marketing content''"
| "failure_text (generateAIImage _) = js ''Failed to generate image''"
| "failure_text (getWebsiteInfo _) = js ''Failed to fetch website info''"
| "failure_text getWebsiteTemplates = js ''Failed to fetch website templates''"
| "failure_text (applyWebsiteTemplate _ _) = js ''Failed to apply template''"
| "failure_text (generateWebsiteHtml _ _) = js ''Failed to generate website HTML''"
| "failure_text (getSocialProfiles _) = js ''Failed to fetch social profiles''"
| "failure_text (getDigitalPresenceAnalytics _) =
     js ''Failed to fetch digital presence analytics''"

text \<open>
  Every method has the same shape: one \<open>fetch\<close>, an \<open>Error\<close> built from the status
  line and the body when \<open>response.ok\<close> is false, the decoded body otherwise. The log is
  the list of the requests handed to \<open>fetch\<close> so far.
\<close>

definition api_fetch ::
  "env \<Rightarrow> request \<Rightarrow> jsstring \<Rightarrow> request list \<Rightarrow> (js_error + response) \<times> request list" where
  "api_fetch e req failed log =
     (let log' = log @ [req]
      in case fetch e req of
           Inl err \<Rightarrow> (Inl err, log')
         | Inr response \<Rightarrow>
             if \<not> ok response then
               (let errorText = body_text response
                in (Inl (Exn Error
                          (failed @ js '': '' @ nat_to_str (status response) @ js '' ''
                           @ statusText response @ js '' - '' @ errorText)),
                    log'))
             else (Inr response, log'))"

definition invoke ::
  "env \<Rightarrow> api_method \<Rightarrow> request list \<Rightarrow> (js_error + jsval) \<times> request list" where
  "invoke e m log =
     (case api_fetch e (request_of m) (failure_text m) log of
        (Inl err, log') \<Rightarrow> (Inl err, log')
      | (Inr response, log') \<Rightarrow> (JSON_parse e (body_text response), log'))"

definition preview_request :: "int \<Rightarrow> jsstring \<Rightarrow> request" where
  "preview_request uid template_id =
     get (js ''/digital-presence/website/'' @ int_to_str uid @ js ''/preview/'' @ template_id)"

definition previewWebsite ::
  "env \<Rightarrow> int \<Rightarrow> jsstring \<Rightarrow> request list \<Rightarrow> (js_error + jsstring) \<times> request list" where
  "previewWebsite e uid template_id log =
     (case api_fetch e (preview_request uid template_id) (js ''Failed to fetch website preview'')
             log of
        (Inl err, log') \<Rightarrow> (Inl err, log')
      | (Inr response, log') \<Rightarrow> (let htmlContent = body_text response in (Inr htmlContent, log')))"

section \<open>Adding a customer\<close>

record new_customer =
  nc_name :: jsstring
  nc_contact_info :: jsstring
  nc_notes :: jsstring

record customers_page =
  searchTerm :: jsstring
  customers :: "customer list"
  loading :: bool
  error :: jsstring
  showAddForm :: bool
  newCustomer :: new_customer

text \<open>
  \<open>handleAddCustomer\<close> from the state of the page at the click to the state once the
  handler has finished. \<open>as_customer\<close> is the reading of the created customer's JSON as
  a \<open>Customer\<close>, which the source does by type annotation alone.
\<close>

definition handleAddCustomer ::
  "env \<Rightarrow> (jsval \<Rightarrow> customer) \<Rightarrow> jsstring \<Rightarrow> customers_page \<Rightarrow> request list
     \<Rightarrow> customers_page \<times> request list" where
  "handleAddCustomer e as_customer userId st log =
     (if nc_name (newCustomer st) = [] \<or> nc_contact_info (newCustomer st) = [] then
        (st\<lparr>error := js ''Name and contact info are required''\<rparr>, log)
      else
        (let st1 = st\<lparr>loading := True\<rparr>;
             userIdNum = (case parseInt e userId of
                            None \<Rightarrow> 1
                          | Some n \<Rightarrow> if n = 0 then 1 else n);
             customerData =
               JObj [(js ''name'', JStr (nc_name (newCustomer st))),
                     (js ''contact_info'', JStr (nc_contact_info (newCustomer st))),
                     (js ''notes'', JStr (nc_notes (newCustomer st))),
                     (js ''user_id'', JNum userIdNum)]
         in case invoke e (createCustomer customerData) log of
              (Inr result, log') \<Rightarrow>
                (st1\<lparr>customers := customers st @ [as_customer result],
                     newCustomer := \<lparr>nc_name = [], nc_contact_info = [], nc_notes = []\<rparr>,
                     showAddForm := False, error := [], loading := False\<rparr>,
                 log')
            | (Inl err, log') \<Rightarrow>
                (st1\<lparr>error := js ''Failed to create customer'', loading := False\<rparr>, log')))"

section \<open>Previewing the website\<close>

record builder =
  selectedTemplate :: jsstring
  isGenerating :: bool
  isLoading :: bool
  previewHtml :: jsstring
  builder_error :: jsstring

text \<open>
  \<open>handlePreviewWebsite\<close>: \<open>userStr\<close> is the item \<open>user\<close> of the local storage
  (\<open>None\<close> for \<open>null\<close>), \<open>stored_user_id\<close> of the environment is
  \<open>JSON.parse(userStr).id\<close> (it throws when the item is not JSON or is \<open>null\<close>, and
  gives no number when the object has no \<open>id\<close>), and \<open>popup\<close> tells whether
  \<open>window.open\<close> returns a window.
\<close>

definition handlePreviewWebsite ::
  "env \<Rightarrow> bool \<Rightarrow> jsstring option \<Rightarrow> builder \<Rightarrow> request list
     \<Rightarrow> builder \<times> effect list \<times> request list" where
  "handlePreviewWebsite e popup userStr st log =
     (case (case userStr of None \<Rightarrow> None | Some s \<Rightarrow> if s = [] then None else Some s) of
        None \<Rightarrow> (st\<lparr>builder_error := js ''No user data found. Please log in again.''\<rparr>, [], log)
      | Some s \<Rightarrow>
          (case stored_user_id e s of
             Inl err \<Rightarrow>
               (st\<lparr>builder_error := js ''Failed to preview website: '' @ message_of err\<rparr>, [],
                log)
           | Inr user_dot_id \<Rightarrow>
               (case (case user_dot_id of
                        None \<Rightarrow> None
                      | Some n \<Rightarrow> if n = 0 then None else Some n) of
                  None \<Rightarrow>
                    (st\<lparr>builder_error := js ''Invalid user data. Please log in again.''\<rparr>, [],
                     log)
                | Some uid \<Rightarrow>
                    (case previewWebsite e uid (selectedTemplate st) log of
                       (Inl err, log') \<Rightarrow>
                         (st\<lparr>builder_error :=
                               js ''Failed to preview website: '' @ message_of err\<rparr>,
                          [], log')
                     | (Inr html, log') \<Rightarrow>
                         if html \<noteq> [] then
                           (if popup
                            then (st, [WindowOpen [] (js ''_blank''), DocumentWrite html,
                                       DocumentClose], log')
                            else (st, [WindowOpen [] (js ''_blank'')], log'))
                         else (st, [], log')))))"

section \<open>Notions the properties are stated with\<close>

text \<open>
  The first match of a pattern in a string: no match starts further left, and no match
  that starts at the same place is longer.
\<close>

definition first_match :: "quant list \<Rightarrow> jsstring \<Rightarrow> jsstring \<Rightarrow> bool" where
  "first_match qs s m =
     (\<exists>pre post. s = pre @ m @ post \<and> lang qs m
        \<and> (\<forall>pre' w post'. s = pre' @ w @ post' \<and> lang qs w \<longrightarrow>
              length pre \<le> length pre' \<and> (length pre' = length pre \<longrightarrow> length w \<le> length m)))"

definition effects_of :: "js_error + effect list \<Rightarrow> effect list" where
  \<comment> \<open>what a handler did: nothing when it threw\<close>
  "effects_of r = (case r of Inl e \<Rightarrow> [] | Inr es \<Rightarrow> es)"

definition sample_customer :: "string \<Rightarrow> string \<Rightarrow> customer" where
  "sample_customer n c =
     \<lparr>cust_id = 1, name = js n, contact_info = js c, notes = None, last_contacted = None,
      user_id = 1\<rparr>"


text \<open>
  Examples. \<open>js_parseInt\<close> is \<open>parseInt\<close> with one argument: white space, a sign,
  then the longest run of decimal digits (of hexadecimal digits after \<open>0x\<close>), and no
  number when that run is empty; its value is the exact integer, which is the number
  JavaScript gives below \<open>2^53\<close>. \<open>sample_JSON_parse\<close> decodes the bodies and stored
  items of the examples: the empty object, \<open>null\<close>, and an object whose only member is
  an \<open>id\<close> written as a JSON integer, such as \<open>{"id":7}\<close>; it throws on anything else.
  \<open>sample_stored_user_id\<close> is \<open>JSON.parse(userStr).id\<close> over that decoder: reading
  \<open>id\<close> of \<open>null\<close> throws, and an object without \<open>id\<close> has none.
  \<open>sample_env r\<close> is the environment whose server answers every request with \<open>r\<close>.
\<close>

definition digit_value :: "jschar \<Rightarrow> int" where
  "digit_value c =
     (if is_digit c then int (unat c) - 48
      else if is_lower c then int (unat c) - 87
      else int (unat c) - 55)"

definition is_hex :: "jschar \<Rightarrow> bool" where
  "is_hex c = (is_digit c \<or> (0x61 \<le> c \<and> c \<le> 0x66) \<or> (0x41 \<le> c \<and> c \<le> 0x46))"

definition js_parseInt :: "jsstring \<Rightarrow> int option" where
  "js_parseInt s =
     (let t = dropWhile is_space s;
          neg = startsWith t (js ''-'');
          u = (if startsWith t (js ''-'') \<or> startsWith t (js ''+'') then tl t else t);
          hex = (startsWith u (js ''0x'') \<or> startsWith u (js ''0X''));
          ds = (if hex then takeWhile is_hex (drop 2 u) else takeWhile is_digit u);
          v = foldl (\<lambda>a c. a * (if hex then 16 else 10) + digit_value c) 0 ds
      in if ds = [] then None else Some (if neg then - v else v))"

definition id_member :: jsstring where
  \<comment> \<open>the six code units \<open>{"id":\<close>\<close>
  "id_member = js ''{'' @ 0x22 # js ''id'' @ 0x22 # js '':''"

definition stored_user_7 :: jsstring where
  \<comment> \<open>the stored item \<open>{"id":7}\<close>\<close>
  "stored_user_7 = id_member @ js ''7}''"

definition sample_JSON_parse :: "jsstring \<Rightarrow> js_error + jsval" where
  "sample_JSON_parse s =
     (if s = js ''{}'' then Inr (JObj [])
      else if s = js ''null'' then Inr JNull
      else
        (let ds = butlast (drop (length id_member) s)
         in if startsWith s id_member \<and> length id_member < length s \<and> last s = 0x7D
               \<and> ds \<noteq> [] \<and> list_all is_digit ds \<and> (hd ds \<noteq> 0x30 \<or> length ds = 1)
            then Inr (JObj [(js ''id'',
                             JNum (foldl (\<lambda>a c. a * 10 + digit_value c) 0 ds))])
            else Inl (Exn SyntaxError (js ''Unexpected token''))))"

definition sample_stored_user_id :: "jsstring \<Rightarrow> js_error + int option" where
  "sample_stored_user_id s =
     (case sample_JSON_parse s of
        Inl e \<Rightarrow> Inl e
      | Inr user \<Rightarrow>
          (case user of
             JNull \<Rightarrow>
               Inl (Exn TypeError (js ''Cannot read properties of null (reading 'id')''))
           | JObj members \<Rightarrow>
               (case map_of members (js ''id'') of
                  Some (JNum n) \<Rightarrow> Inr (Some n)
                | _ \<Rightarrow> Inr None)
           | _ \<Rightarrow> Inr None))"

definition sample_env :: "response \<Rightarrow> env" where
  "sample_env r =
     \<lparr>fetch = (\<lambda>req. Inr r), JSON_parse = sample_JSON_parse, parseInt = js_parseInt,
      stored_user_id = sample_stored_user_id\<rparr>"

definition sample_page :: "string \<Rightarrow> string \<Rightarrow> customers_page" where
  "sample_page n c =
     \<lparr>searchTerm = [], customers = [sample_customer ''Bala'' ''bala@mail.in''], loading = False,
      error = [], showAddForm = True,
      newCustomer = \<lparr>nc_name = js n, nc_contact_info = js c, nc_notes = []\<rparr>\<rparr>"

definition sample_builder :: builder where
  "sample_builder =
     \<lparr>selectedTemplate = js ''professional'', isGenerating = False, isLoading = False,
      previewHtml = [], builder_error = []\<rparr>"


section \<open>The matcher and the words of a pattern\<close>

lemma first_some_SomeD: "first_some f xs = Some y \<Longrightarrow> \<exists>x\<in>set xs. f x = Some y"
  by (induction xs) (auto split: option.splits)

lemma first_some_None_iff: "first_some f xs = None \<longleftrightarrow> (\<forall>x\<in>set xs. f x = None)"
  by (induction xs) (auto split: option.splits)

lemma take_le_takeWhile: "n \<le> length (takeWhile P s) \<Longrightarrow> list_all P (take n s)"
proof (induction s arbitrary: n)
  case Nil then show ?case by simp
next
  case (Cons a s)
  then show ?case by (cases n) (auto split: if_splits)
qed

lemma list_all_le_takeWhile: "list_all P u \<Longrightarrow> length u \<le> length (takeWhile P (u @ t))"
  by (induction u) auto

lemma match_seq_Cons:
  "match_seq (q # qs) s =
     first_some (\<lambda>n. map_option (\<lambda>k. n + k) (match_seq qs (drop n s)))
       (rev [qmin q ..< Suc (case qmax q of None \<Rightarrow> length (takeWhile (cls q) s)
                                | Some m \<Rightarrow> min m (length (takeWhile (cls q) s)))])"
  by (simp add: Let_def del: upt_Suc)

lemma match_seq_sound:
  "match_seq qs s = Some n \<Longrightarrow> n \<le> length s \<and> lang qs (take n s)"
proof (induction qs arbitrary: s n)
  case Nil
  then show ?case by simp
next
  case (Cons q qs)
  define run where "run = length (takeWhile (cls q) s)"
  define hi where "hi = (case qmax q of None \<Rightarrow> run | Some m \<Rightarrow> min m run)"
  from Cons.prems have "first_some (\<lambda>n. map_option (\<lambda>k. n + k) (match_seq qs (drop n s)))
           (rev [qmin q ..< Suc hi]) = Some n"
    unfolding match_seq_Cons run_def hi_def .
  then obtain j where j: "j \<in> set (rev [qmin q ..< Suc hi])"
    and mj: "map_option (\<lambda>k. j + k) (match_seq qs (drop j s)) = Some n"
    by (blast dest: first_some_SomeD)
  from mj obtain k where k: "match_seq qs (drop j s) = Some k" and n: "n = j + k"
    by auto
  from Cons.IH[OF k] have kl: "k \<le> length (drop j s)" and lk: "lang qs (take k (drop j s))"
    by auto
  from j have jlo: "qmin q \<le> j" and jhi: "j \<le> hi" by (auto simp del: upt_Suc)
  have hirun: "hi \<le> run" by (auto simp: hi_def split: option.splits)
  have runlen: "run \<le> length s" unfolding run_def by (rule length_takeWhile_le)
  have jmax: "case qmax q of None \<Rightarrow> True | Some m \<Rightarrow> j \<le> m"
    using jhi by (auto simp: hi_def split: option.splits)
  have all: "list_all (cls q) (take j s)"
    using jhi hirun by (intro take_le_takeWhile) (simp add: run_def)
  have len: "length (take j s) = j" using jhi hirun runlen by simp
  have split: "take n s = take j s @ take k (drop j s)"
    by (simp add: n take_add)
  have "lang (q # qs) (take n s)"
    unfolding lang.simps
    apply (rule exI[of _ "take j s"], rule exI[of _ "take k (drop j s)"])
    using split all len jlo jmax lk by (auto split: option.splits)
  moreover have "n \<le> length s" using kl jhi hirun runlen by (simp add: n)
  ultimately show ?case by simp
qed

lemma match_seq_complete:
  "lang qs w \<Longrightarrow> match_seq qs (w @ t) \<noteq> None"
proof (induction qs arbitrary: w)
  case Nil
  then show ?case by simp
next
  case (Cons q qs)
  from Cons.prems obtain u v where w: "w = u @ v" and all: "list_all (cls q) u"
    and lo: "qmin q \<le> length u"
    and up: "case qmax q of None \<Rightarrow> True | Some m \<Rightarrow> length u \<le> m" and lv: "lang qs v"
    by auto
  define s where "s = w @ t"
  define run where "run = length (takeWhile (cls q) s)"
  define hi where "hi = (case qmax q of None \<Rightarrow> run | Some m \<Rightarrow> min m run)"
  have "length u \<le> run" unfolding run_def s_def w using list_all_le_takeWhile[OF all] by simp
  with up have "length u \<le> hi" by (auto simp: hi_def split: option.splits)
  with lo have mem: "length u \<in> set (rev [qmin q ..< Suc hi])" by (simp del: upt_Suc)
  have "match_seq qs (drop (length u) s) \<noteq> None"
    using Cons.IH[OF lv] by (simp add: s_def w)
  then have "map_option (\<lambda>k. length u + k) (match_seq qs (drop (length u) s)) \<noteq> None"
    by simp
  with mem have "\<exists>x\<in>set (rev [qmin q ..< Suc hi]).
      map_option (\<lambda>k. x + k) (match_seq qs (drop x s)) \<noteq> None"
    by (intro bexI[of _ "length u"])
  then have "first_some (\<lambda>n. map_option (\<lambda>k. n + k) (match_seq qs (drop n s)))
           (rev [qmin q ..< Suc hi]) \<noteq> None"
    by (simp only: first_some_None_iff not_all simp_thms Bex_def Ball_def not_imp)
  then show ?case unfolding match_seq_Cons s_def run_def hi_def .
qed

lemma re_match_SomeD:
  "re_match qs s = Some m \<Longrightarrow>
     \<exists>pre post. s = pre @ m @ post \<and> match_seq qs (m @ post) = Some (length m)
        \<and> (\<forall>i<length pre. match_seq qs (drop i s) = None)"
proof (induction s)
  case Nil
  then obtain z where z: "match_seq qs [] = Some z" and m: "m = []" by auto
  from match_seq_sound[OF z] have "z = 0" by simp
  with z m show ?case by simp
next
  case (Cons c cs)
  show ?case
  proof (cases "match_seq qs (c # cs)")
    case (Some n)
    with Cons.prems have m: "m = take n (c # cs)" by simp
    from match_seq_sound[OF Some] have "n \<le> length (c # cs)" by simp
    then have lm: "length m = n" by (simp add: m)
    have a: "c # cs = [] @ m @ drop n (c # cs)" by (simp add: m)
    have b: "match_seq qs (m @ drop n (c # cs)) = Some (length m)"
      using Some lm by (simp add: m)
    have c: "\<forall>i<length ([]::jsstring). match_seq qs (drop i (c # cs)) = None" by simp
    from a b c show ?thesis by blast
  next
    case None
    with Cons.prems have "re_match qs cs = Some m" by simp
    from Cons.IH[OF this] obtain pre post where
      cs: "cs = pre @ m @ post" and ms: "match_seq qs (m @ post) = Some (length m)"
      and no: "\<forall>i<length pre. match_seq qs (drop i cs) = None" by blast
    have "\<forall>i<length (c # pre). match_seq qs (drop i (c # cs)) = None"
    proof (intro allI impI)
      fix i assume i: "i < length (c # pre)"
      show "match_seq qs (drop i (c # cs)) = None"
      proof (cases i)
        case 0
        then show ?thesis using None by simp
      next
        case (Suc j)
        with i have "j < length pre" by simp
        with no have "match_seq qs (drop j cs) = None" by blast
        then show ?thesis using Suc by simp
      qed
    qed
    moreover have "c # cs = (c # pre) @ m @ post" using cs by simp
    ultimately show ?thesis using ms by blast
  qed
qed

lemma re_match_None_iff:
  "re_match qs s = None \<longleftrightarrow> (\<forall>i\<le>length s. match_seq qs (drop i s) = None)"
proof (induction s)
  case Nil
  then show ?case by auto
next
  case (Cons c cs)
  show ?case
  proof (cases "match_seq qs (c # cs)")
    case (Some n)
    then have "re_match qs (c # cs) \<noteq> None" by simp
    moreover have "\<not> (\<forall>i\<le>length (c # cs). match_seq qs (drop i (c # cs)) = None)"
      using Some by (auto intro: exI[of _ 0])
    ultimately show ?thesis by blast
  next
    case None
    have "(\<forall>i\<le>length (c # cs). match_seq qs (drop i (c # cs)) = None)
       \<longleftrightarrow> (\<forall>i\<le>length cs. match_seq qs (drop i cs) = None)"
    proof
      assume a: "\<forall>i\<le>length (c # cs). match_seq qs (drop i (c # cs)) = None"
      show "\<forall>i\<le>length cs. match_seq qs (drop i cs) = None"
      proof (intro allI impI)
        fix i assume "i \<le> length cs"
        then have "Suc i \<le> length (c # cs)" by simp
        from a[rule_format, OF this] show "match_seq qs (drop i cs) = None" by simp
      qed
    next
      assume a: "\<forall>i\<le>length cs. match_seq qs (drop i cs) = None"
      show "\<forall>i\<le>length (c # cs). match_seq qs (drop i (c # cs)) = None"
      proof (intro allI impI)
        fix i assume i: "i \<le> length (c # cs)"
        show "match_seq qs (drop i (c # cs)) = None"
        proof (cases i)
          case 0
          then show ?thesis using None by simp
        next
          case (Suc j)
          with i have "j \<le> length cs" by simp
          with a have "match_seq qs (drop j cs) = None" by blast
          then show ?thesis using Suc by simp
        qed
      qed
    qed
    with None Cons.IH show ?thesis by simp
  qed
qed

lemma contains_match_iff: "contains_match qs s \<longleftrightarrow> re_match qs s \<noteq> None"
proof
  assume "contains_match qs s"
  then obtain pre w post where s: "s = pre @ w @ post" and l: "lang qs w"
    unfolding contains_match_def by blast
  have "drop (length pre) s = w @ post" by (simp add: s)
  with match_seq_complete[OF l, of post]
  have "match_seq qs (drop (length pre) s) \<noteq> None" by simp
  moreover have "length pre \<le> length s" by (simp add: s)
  ultimately have "\<exists>i\<le>length s. match_seq qs (drop i s) \<noteq> None" by (intro exI[of _ "length pre"] conjI)
  then have "\<not> (\<forall>i\<le>length s. match_seq qs (drop i s) = None)" by simp
  then show "re_match qs s \<noteq> None"
  proof (rule contrapos_nn)
    assume "re_match qs s = None"
    then show "\<forall>i\<le>length s. match_seq qs (drop i s) = None"
      by (simp only: re_match_None_iff)
  qed
next
  assume "re_match qs s \<noteq> None"
  then obtain m where m: "re_match qs s = Some m" by auto
  from re_match_SomeD[OF m] obtain pre post where s: "s = pre @ m @ post"
    and ms: "match_seq qs (m @ post) = Some (length m)" by blast
  from match_seq_sound[OF ms] have "lang qs m" by simp
  with s have "s = pre @ m @ post \<and> lang qs m" by simp
  then show "contains_match qs s" unfolding contains_match_def by (intro exI)
qed

section \<open>The phone pattern\<close>

lemma js_plus: "js ''+'' = [0x2B]"
  by (simp add: js_def)

lemma plus_not_phone_cls: "\<not> phone_cls 0x2B"
  by (simp add: phone_cls_def is_digit_def is_space_def)

lemma first_some_rev_upt:
  "first_some (\<lambda>n. Some (g n)) (rev [a ..< Suc b]) = (if a \<le> b then Some (g b) else None)"
  by simp

lemma match_seq_phone_tail:
  "match_seq [Quant phone_cls 10 None] s =
     (if 10 \<le> length (takeWhile phone_cls s) then Some (length (takeWhile phone_cls s))
      else None)"
  unfolding match_seq_Cons by (simp del: upt_Suc add: first_some_rev_upt)

lemma match_seq_phone:
  "match_seq phone_re s =
     (case s of
        [] \<Rightarrow> None
      | c # t \<Rightarrow>
          if c = 0x2B then
            (if 10 \<le> length (takeWhile phone_cls t)
             then Some (Suc (length (takeWhile phone_cls t))) else None)
          else if 10 \<le> length (takeWhile phone_cls (c # t))
          then Some (length (takeWhile phone_cls (c # t))) else None)"
proof (cases s)
  case Nil
  then show ?thesis
    unfolding phone_re_def match_seq_Cons[of _ "[_]"] match_seq_phone_tail by simp
next
  case (Cons c t)
  show ?thesis
  proof (cases "c = 0x2B")
    case True
    then show ?thesis
      unfolding phone_re_def match_seq_Cons[of _ "[_]"] match_seq_phone_tail Cons
      by (simp add: plus_not_phone_cls)
  next
    case False
    then show ?thesis
      unfolding phone_re_def match_seq_Cons[of _ "[_]"] match_seq_phone_tail Cons
      by simp
  qed
qed

lemma lang_phone_iff:
  "lang phone_re w \<longleftrightarrow>
     (\<exists>r. (w = r \<or> w = 0x2B # r) \<and> list_all phone_cls r \<and> 10 \<le> length r)"
proof
  assume "lang phone_re w"
  then obtain u r where w: "w = u @ r" and u: "list_all (\<lambda>c. c = 0x2B) u" "length u \<le> 1"
    and r: "list_all phone_cls r" "10 \<le> length r"
    by (auto simp: phone_re_def)
  from u have "u = [] \<or> u = [0x2B]" by (cases u) auto
  with w r show "\<exists>r. (w = r \<or> w = 0x2B # r) \<and> list_all phone_cls r \<and> 10 \<le> length r"
    by auto
next
  assume "\<exists>r. (w = r \<or> w = 0x2B # r) \<and> list_all phone_cls r \<and> 10 \<le> length r"
  then obtain r where w: "w = r \<or> w = 0x2B # r" and r: "list_all phone_cls r" "10 \<le> length r"
    by blast
  from w show "lang phone_re w"
  proof
    assume "w = r"
    then have "w = [] @ r" by simp
    with r show ?thesis unfolding phone_re_def lang.simps
      by (intro exI[of _ "[]"] exI[of _ r]) auto
  next
    assume "w = 0x2B # r"
    then have "w = [0x2B] @ r" by simp
    with r show ?thesis unfolding phone_re_def lang.simps
      by (intro exI[of _ "[0x2B]"] exI[of _ r]) auto
  qed
qed

lemma match_seq_phone_longest:
  assumes "lang phone_re w" and "match_seq phone_re (w @ t) = Some n"
  shows "length w \<le> n"
proof -
  from assms(1) obtain r where w: "w = r \<or> w = 0x2B # r" and r: "list_all phone_cls r"
    and len: "10 \<le> length r"
    unfolding lang_phone_iff by blast
  have run: "length r \<le> length (takeWhile phone_cls (r @ t))"
    using r by (rule list_all_le_takeWhile)
  from w show ?thesis
  proof
    assume wr: "w = r"
    with len obtain c r' where rc: "r = c # r'" by (cases r) auto
    with r have "c \<noteq> 0x2B" using plus_not_phone_cls by auto
    with assms(2) run len show ?thesis
      by (simp add: match_seq_phone wr rc split: if_splits)
  next
    assume wr: "w = 0x2B # r"
    with assms(2) run len show ?thesis
      by (simp add: match_seq_phone split: if_splits)
  qed
qed

lemma filter_dropWhile:
  "(\<And>x. Q x \<Longrightarrow> \<not> P x) \<Longrightarrow> filter P (dropWhile Q xs) = filter P xs"
  by (induction xs) auto

lemma filter_trim:
  assumes "\<And>x. is_space x \<Longrightarrow> \<not> P x"
  shows "filter P (trim s) = filter P s"
proof -
  have "filter P (trim s) = rev (filter P (dropWhile is_space (rev (dropWhile is_space s))))"
    by (simp add: trim_def rev_filter)
  also have "\<dots> = rev (filter P (rev (dropWhile is_space s)))"
    using assms by (simp add: filter_dropWhile)
  also have "\<dots> = filter P (dropWhile is_space s)" by (simp add: rev_filter)
  also have "\<dots> = filter P s" using assms by (simp add: filter_dropWhile)
  finally show ?thesis .
qed

lemma set_trim: "set (trim s) \<subseteq> set s"
proof -
  have "set (trim s) = set (dropWhile is_space (rev (dropWhile is_space s)))"
    by (simp add: trim_def)
  also have "\<dots> \<subseteq> set (rev (dropWhile is_space s))" by (rule set_dropWhileD[THEN subsetI])
  also have "\<dots> \<subseteq> set s" using set_dropWhileD[of _ is_space s] by auto
  finally show ?thesis .
qed

lemma startsWith_plus: "startsWith s (js ''+'') \<longleftrightarrow> (\<exists>t. s = 0x2B # t)"
  by (cases s) (auto simp: js_plus)

lemma trim_plus:
  "trim (0x2B # r) = 0x2B # rev (dropWhile is_space (rev r))"
proof -
  have ns: "\<not> is_space 0x2B" by (simp add: is_space_def)
  then have "trim (0x2B # r) = rev (dropWhile is_space (rev r @ [0x2B]))"
    by (simp add: trim_def)
  also have "\<dots> = rev (dropWhile is_space (rev r) @ [0x2B])"
    using ns by (simp add: dropWhile_append3)
  finally show ?thesis by simp
qed

lemma first_match_unique:
  assumes "first_match qs s m" and "first_match qs s m'"
  shows "m = m'"
proof -
  from assms(1) obtain pre post where s: "s = pre @ m @ post" and l: "lang qs m"
    and a: "\<And>pre' w post'. s = pre' @ w @ post' \<Longrightarrow> lang qs w \<Longrightarrow>
              length pre \<le> length pre' \<and> (length pre' = length pre \<longrightarrow> length w \<le> length m)"
    unfolding first_match_def by blast
  from assms(2) obtain pre2 post2 where s2: "s = pre2 @ m' @ post2" and l2: "lang qs m'"
    and a2: "\<And>pre' w post'. s = pre' @ w @ post' \<Longrightarrow> lang qs w \<Longrightarrow>
              length pre2 \<le> length pre' \<and> (length pre' = length pre2 \<longrightarrow> length w \<le> length m')"
    unfolding first_match_def by blast
  from a[OF s2 l2] a2[OF s l] have lp: "length pre = length pre2" by simp
  with a[OF s2 l2] a2[OF s l] have lm: "length m = length m'" by simp
  from s s2 have "pre @ m @ post = pre2 @ m' @ post2" by simp
  with lp have "m @ post = m' @ post2" by simp
  with lm show ?thesis by simp
qed

lemma re_match_phone_first:
  assumes "re_match phone_re s = Some m"
  shows "first_match phone_re s m"
proof -
  from re_match_SomeD[OF assms] obtain pre post where s: "s = pre @ m @ post"
    and ms: "match_seq phone_re (m @ post) = Some (length m)"
    and no: "\<forall>i<length pre. match_seq phone_re (drop i s) = None" by blast
  from match_seq_sound[OF ms] have l: "lang phone_re m" by simp
  have "length pre \<le> length pre' \<and> (length pre' = length pre \<longrightarrow> length w \<le> length m)"
    if s': "s = pre' @ w @ post'" and lw: "lang phone_re w" for pre' w post'
  proof
    have d: "drop (length pre') s = w @ post'" by (simp add: s')
    have "match_seq phone_re (drop (length pre') s) \<noteq> None"
      unfolding d using lw by (rule match_seq_complete)
    with no show "length pre \<le> length pre'" by (meson not_le_imp_less)
    show "length pre' = length pre \<longrightarrow> length w \<le> length m"
    proof
      assume eq: "length pre' = length pre"
      from s s' have "pre @ m @ post = pre' @ w @ post'" by simp
      with eq have "m @ post = w @ post'" by simp
      with ms have "match_seq phone_re (w @ post') = Some (length m)" by simp
      with lw show "length w \<le> length m" by (rule match_seq_phone_longest)
    qed
  qed
  with s l show ?thesis unfolding first_match_def by blast
qed

lemma re_match_phone_nonempty: "re_match phone_re s = Some m \<Longrightarrow> m \<noteq> []"
proof -
  assume "re_match phone_re s = Some m"
  from re_match_phone_first[OF this] have "lang phone_re m" unfolding first_match_def by blast
  then show "m \<noteq> []" unfolding lang_phone_iff by auto
qed

lemma or_empty_id: "or_empty s = s"
  by (simp add: or_empty_def)

lemma tel_filter:
  "filter (\<lambda>x. \<not> is_space x \<and> x \<noteq> 0x2D) (trim m) = filter (\<lambda>x. \<not> is_space x \<and> x \<noteq> 0x2D) m"
  by (rule filter_trim) simp

lemma handleCall_phone:
  "re_match phone_re (trim (contact_info c)) = Some m \<Longrightarrow>
     handleCall c = Inr [SetLocationHref (js ''tel:'' @ filter (\<lambda>x. \<not> is_space x \<and> x \<noteq> 0x2D) m)]"
  using re_match_phone_nonempty[of "trim (contact_info c)" m]
  by (simp add: handleCall_def or_empty_id Let_def truthy_match_def tel_filter)

lemma detail_handleCall_phone:
  "re_match phone_re (trim (contact_info c)) = Some m \<Longrightarrow>
     detail_handleCall (Some c) =
       Inr [SetLocationHref (js ''tel:'' @ filter (\<lambda>x. \<not> is_space x \<and> x \<noteq> 0x2D) m)]"
  using re_match_phone_nonempty[of "trim (contact_info c)" m]
  by (simp add: detail_handleCall_def or_empty_id Let_def truthy_match_def tel_filter)

section \<open>Dialling\<close>

text \<open>
  C1. When the trimmed \<open>contact_info\<close> of a customer contains a substring that the
  phone pattern matches, \<open>handleCall\<close> (of the customer list and of the detail page)
  navigates to \<open>tel:\<close> followed by the first such match without its white space
  (the class \<open>\s\<close>) and hyphens.
\<close>

theorem handleCall_dials_first_match:
  assumes "contains_match phone_re (trim (contact_info c))"
  shows "\<exists>m. first_match phone_re (trim (contact_info c)) m
           \<and> handleCall c =
               Inr [SetLocationHref (js ''tel:'' @ filter (\<lambda>x. \<not> is_space x \<and> x \<noteq> 0x2D) m)]
           \<and> detail_handleCall (Some c) =
               Inr [SetLocationHref (js ''tel:'' @ filter (\<lambda>x. \<not> is_space x \<and> x \<noteq> 0x2D) m)]"
proof -
  from assms obtain m where m: "re_match phone_re (trim (contact_info c)) = Some m"
    unfolding contains_match_iff by blast
  from re_match_phone_first[OF m] handleCall_phone[OF m] detail_handleCall_phone[OF m]
  show ?thesis by blast
qed

theorem handleCall_dials_first_match_witness:
  "contains_match phone_re (trim (contact_info (sample_customer ''Asha'' '' home +91 98765-43210 '')))
   \<and> first_match phone_re (js ''home +91 98765-43210'') (js ''+91 98765-43210'')
   \<and> handleCall (sample_customer ''Asha'' '' home +91 98765-43210 '')
       = Inr [SetLocationHref (js ''tel:+919876543210'')]
   \<and> detail_handleCall (Some (sample_customer ''Asha'' '' home +91 98765-43210 ''))
       = Inr [SetLocationHref (js ''tel:+919876543210'')]"
proof -
  let ?c = "sample_customer ''Asha'' '' home +91 98765-43210 ''"
  have r: "re_match phone_re (trim (contact_info ?c)) = Some (js ''+91 98765-43210'')"
    by code_simp
  then have h: "contains_match phone_re (trim (contact_info ?c))"
    by (simp add: contains_match_iff)
  from handleCall_dials_first_match[OF h] obtain m where
    fm: "first_match phone_re (trim (contact_info ?c)) m"
    and hc: "handleCall ?c = Inr [SetLocationHref (js ''tel:'' @ filter (\<lambda>x. \<not> is_space x \<and> x \<noteq> 0x2D) m)]"
    and dc: "detail_handleCall (Some ?c) = Inr [SetLocationHref (js ''tel:'' @ filter (\<lambda>x. \<not> is_space x \<and> x \<noteq> 0x2D) m)]"
    by blast
  have m: "m = js ''+91 98765-43210''"
    using fm re_match_phone_first[OF r] by (rule first_match_unique)
  have t: "trim (contact_info ?c) = js ''home +91 98765-43210''" by code_simp
  have f: "js ''tel:'' @ filter (\<lambda>x. \<not> is_space x \<and> x \<noteq> 0x2D) (js ''+91 98765-43210'')
           = js ''tel:+919876543210''" by code_simp
  from h fm hc dc show ?thesis unfolding m f t by blast
qed

lemma startsWith_single: "startsWith s [a] \<longleftrightarrow> (\<exists>t. s = a # t)"
  by (cases s) auto

lemma includes_single: "includes_str s [a] \<longleftrightarrow> a \<in> set s"
  by (induction s) (auto simp: startsWith_single)

lemma js_at: "js ''@'' = [0x40]"
  by (simp add: js_def)

lemma not_contains_phone: "\<not> contains_match phone_re s \<Longrightarrow> re_match phone_re s = None"
  by (simp add: contains_match_iff)

section \<open>Fallbacks\<close>

lemma trim_sublist: "\<exists>pre post. s = pre @ trim s @ post"
proof -
  define d where "d = dropWhile is_space s"
  have "rev (dropWhile is_space (rev d)) @ rev (takeWhile is_space (rev d))
          = rev (takeWhile is_space (rev d) @ dropWhile is_space (rev d))"
    by (simp only: rev_append)
  also have "\<dots> = rev (rev d)" by (simp only: takeWhile_dropWhile_id)
  also have "\<dots> = d" by simp
  finally have "trim s @ rev (takeWhile is_space (rev d)) = d"
    by (simp only: trim_def d_def)
  moreover have "s = takeWhile is_space s @ d" by (simp add: d_def)
  ultimately have "s = takeWhile is_space s @ trim s @ rev (takeWhile is_space (rev d))"
    by simp
  then show ?thesis by blast
qed

lemma contains_match_trim:
  assumes "contains_match qs (trim s)"
  shows "contains_match qs s"
proof -
  from assms obtain pre w post where t: "trim s = pre @ w @ post" and l: "lang qs w"
    unfolding contains_match_def by blast
  from trim_sublist[of s] obtain a b where "s = a @ trim s @ b" by blast
  with t have "s = (a @ pre) @ w @ (post @ b)" by simp
  with l show ?thesis unfolding contains_match_def by blast
qed

text \<open>
  C2. When the trimmed \<open>contact_info\<close> contains no substring that the phone pattern
  matches (in particular when the \<open>contact_info\<close> itself contains none),
  \<open>handleSMS\<close> and \<open>handleWhatsApp\<close> show their alert and do nothing else, and
  \<open>handleCall\<close>, when there is no \<open>@\<close> either, writes the trimmed \<open>contact_info\<close>
  to the clipboard and shows an alert, without any navigation. The handlers of the
  detail page do the same.
\<close>

theorem fallbacks_without_phone_match:
  assumes "\<not> contains_match phone_re (trim (contact_info c))
             \<or> \<not> contains_match phone_re (contact_info c)"
  shows "(0x40 \<notin> set (trim (contact_info c)) \<longrightarrow>
            handleCall c = Inr [ClipboardWriteText (trim (contact_info c)),
                                Alert (js ''Contact copied to clipboard'')]
            \<and> detail_handleCall (Some c)
                = Inr [ClipboardWriteText (trim (contact_info c)),
                       Alert (js ''Contact copied to clipboard'')])
         \<and> handleSMS c = Inr [Alert (js ''Invalid phone number for SMS'')]
         \<and> handleWhatsApp c = Inr [Alert (js ''Invalid phone number for WhatsApp'')]
         \<and> detail_handleSMS (Some c) = Inr [Alert (js ''Invalid phone number for SMS'')]
         \<and> detail_handleWhatsApp (Some c) = Inr [Alert (js ''Invalid phone number for WhatsApp'')]"
proof -
  from assms have "\<not> contains_match phone_re (trim (contact_info c))"
    using contains_match_trim by blast
  then have n: "re_match phone_re (trim (contact_info c)) = None"
    by (rule not_contains_phone)
  have "handleCall c = Inr [ClipboardWriteText (trim (contact_info c)),
                                Alert (js ''Contact copied to clipboard'')]
        \<and> detail_handleCall (Some c)
                = Inr [ClipboardWriteText (trim (contact_info c)),
                       Alert (js ''Contact copied to clipboard'')]"
    if "0x40 \<notin> set (trim (contact_info c))"
    using that n
    by (simp add: handleCall_def detail_handleCall_def or_empty_id js_at includes_single)
  moreover have "handleSMS c = Inr [Alert (js ''Invalid phone number for SMS'')]"
    using n by (simp add: handleSMS_def or_empty_id)
  moreover have "handleWhatsApp c = Inr [Alert (js ''Invalid phone number for WhatsApp'')]"
    using n by (simp add: handleWhatsApp_def or_empty_id)
  moreover have "detail_handleSMS (Some c) = Inr [Alert (js ''Invalid phone number for SMS'')]"
    using n by (simp add: detail_handleSMS_def or_empty_id)
  moreover have "detail_handleWhatsApp (Some c)
      = Inr [Alert (js ''Invalid phone number for WhatsApp'')]"
    using n by (simp add: detail_handleWhatsApp_def or_empty_id)
  ultimately show ?thesis by blast
qed

theorem fallbacks_without_phone_match_witness:
  "\<not> contains_match phone_re (trim (contact_info (sample_customer ''Asha'' '' shop, 2nd floor '')))
   \<and> 0x40 \<notin> set (trim (contact_info (sample_customer ''Asha'' '' shop, 2nd floor '')))
   \<and> handleCall (sample_customer ''Asha'' '' shop, 2nd floor '')
       = Inr [ClipboardWriteText (js ''shop, 2nd floor''), Alert (js ''Contact copied to clipboard'')]
   \<and> handleSMS (sample_customer ''Asha'' '' shop, 2nd floor '')
       = Inr [Alert (js ''Invalid phone number for SMS'')]
   \<and> handleWhatsApp (sample_customer ''Asha'' '' shop, 2nd floor '')
       = Inr [Alert (js ''Invalid phone number for WhatsApp'')]"
proof -
  let ?c = "sample_customer ''Asha'' '' shop, 2nd floor ''"
  have r: "re_match phone_re (trim (contact_info ?c)) = None"
    by code_simp
  then have h: "\<not> contains_match phone_re (trim (contact_info ?c))"
    by (simp add: contains_match_iff)
  have t: "trim (contact_info ?c) = js ''shop, 2nd floor''"
    by code_simp
  have a: "0x40 \<notin> set (trim (contact_info ?c))"
    unfolding t by (simp add: js_def)
  from h have "\<not> contains_match phone_re (trim (contact_info ?c))
             \<or> \<not> contains_match phone_re (contact_info ?c)" by (rule disjI1)
  from fallbacks_without_phone_match[OF this] a h show ?thesis
    unfolding t by blast
qed

section \<open>The WhatsApp link\<close>

lemma whatsapp_number_match:
  assumes "lang phone_re m"
  shows "whatsapp_number (trim m) =
           (if startsWith (trim m) (js ''+'') then js ''+'' else js ''+91'')
           @ filter is_digit (trim m)"
proof (cases "startsWith (trim m) (js ''+'')")
  case False
  then show ?thesis by (simp add: whatsapp_number_def)
next
  case True
  then obtain t where t: "trim m = 0x2B # t" unfolding startsWith_plus by blast
  from assms obtain r where m: "m = r \<or> m = 0x2B # r" and r: "list_all phone_cls r"
    unfolding lang_phone_iff by blast
  have "0x2B \<in> set (trim m)" by (simp add: t)
  with set_trim[of m] have pm: "0x2B \<in> set m" by blast
  have mr: "m = 0x2B # r"
  proof (rule ccontr)
    assume "m \<noteq> 0x2B # r"
    with m have "m = r" by simp
    with pm r have "phone_cls 0x2B" by (simp add: list_all_iff)
    with plus_not_phone_cls show False by simp
  qed
  have tt: "t = rev (dropWhile is_space (rev r))"
    using t by (simp add: mr trim_plus)
  have "set t \<subseteq> set r" unfolding tt using set_dropWhileD[of _ is_space "rev r"] by auto
  with r have np: "\<forall>x\<in>set t. x \<noteq> 0x2B"
    using plus_not_phone_cls by (auto simp: list_all_iff)
  then have f: "filter (\<lambda>c. is_digit c \<or> c = 0x2B) t = filter is_digit t"
    by (intro filter_cong) auto
  have nd: "\<not> is_digit 0x2B" by (simp add: is_digit_def)
  show ?thesis using True nd by (simp add: whatsapp_number_def t f js_plus)
qed

lemma handleWhatsApp_phone:
  assumes "re_match phone_re (trim (contact_info c)) = Some m"
  shows "handleWhatsApp c =
     (case encodeURIComponent (whatsapp_text c) of
        Inl e \<Rightarrow> Inl e
      | Inr t \<Rightarrow> Inr [WindowOpen (js ''https://wa.me/'' @ whatsapp_number (trim m)
                                  @ js ''?text='' @ t) (js ''_blank'')])"
  using assms re_match_phone_nonempty[OF assms]
  by (simp add: handleWhatsApp_def or_empty_id Let_def truthy_match_def)

lemma detail_handleWhatsApp_phone:
  assumes "re_match phone_re (trim (contact_info c)) = Some m"
  shows "detail_handleWhatsApp (Some c) =
     (case encodeURIComponent (detail_whatsapp_text c) of
        Inl e \<Rightarrow> Inl e
      | Inr t \<Rightarrow> Inr [WindowOpen (js ''https://wa.me/'' @ whatsapp_number (trim m)
                                  @ js ''?text='' @ t) (js ''_blank'')])"
  using assms re_match_phone_nonempty[OF assms]
  by (simp add: detail_handleWhatsApp_def or_empty_id Let_def truthy_match_def)

text \<open>
  C8. For the phone number \<open>handleWhatsApp\<close> extracts (the trimmed first match),
  the link it opens is \<open>https://wa.me/\<close> followed by \<open>+\<close> when the number starts
  with \<open>+\<close> and by \<open>+91\<close> in every other case, then by the digits of the number,
  then by the encoded greeting. The handler opens nothing only when encoding the
  greeting throws.
\<close>

theorem handleWhatsApp_number:
  assumes "re_match phone_re (trim (contact_info c)) = Some m"
  shows "handleWhatsApp c =
           (case encodeURIComponent (whatsapp_text c) of
              Inl e \<Rightarrow> Inl e
            | Inr t \<Rightarrow>
                Inr [WindowOpen
                       (js ''https://wa.me/''
                        @ (if startsWith (trim m) (js ''+'') then js ''+'' else js ''+91'')
                        @ filter is_digit (trim m) @ js ''?text='' @ t)
                       (js ''_blank'')])
         \<and> detail_handleWhatsApp (Some c) =
           (case encodeURIComponent (detail_whatsapp_text c) of
              Inl e \<Rightarrow> Inl e
            | Inr t \<Rightarrow>
                Inr [WindowOpen
                       (js ''https://wa.me/''
                        @ (if startsWith (trim m) (js ''+'') then js ''+'' else js ''+91'')
                        @ filter is_digit (trim m) @ js ''?text='' @ t)
                       (js ''_blank'')])"
proof -
  from re_match_phone_first[OF assms] have "lang phone_re m"
    unfolding first_match_def by blast
  from whatsapp_number_match[OF this] show ?thesis
    by (simp only: handleWhatsApp_phone[OF assms] detail_handleWhatsApp_phone[OF assms]
          append_assoc)
qed


theorem handleWhatsApp_number_witness:
  "re_match phone_re (trim (contact_info (sample_customer ''Asha'' '' 098765 43210 '')))
     = Some (js ''098765 43210'')
   \<and> handleWhatsApp (sample_customer ''Asha'' '' 098765 43210 '')
     = Inr [WindowOpen
              (js ''https://wa.me/+9109876543210?text=Hello%20Asha!%20I'm%20reaching%20out%20to%20discuss%20how%20we%20can%20help%20with%20your%20needs.%20Would%20you%20have%20some%20time%20to%20chat%3F'')
              (js ''_blank'')]
   \<and> detail_handleWhatsApp (Some (sample_customer ''Asha'' '' 098765 43210 ''))
     = Inr [WindowOpen
              (js ''https://wa.me/+9109876543210?text=Hello%20Asha%2C%20I'm%20reaching%20out%20regarding%20your%20insurance%20needs.%20How%20may%20I%20assist%20you%20today%3F'')
              (js ''_blank'')]
   \<and> re_match phone_re (trim (contact_info (sample_customer ''Asha'' ''office: +44 20 7946 0958'')))
     = Some (js ''+44 20 7946 0958'')
   \<and> handleWhatsApp (sample_customer ''Asha'' ''office: +44 20 7946 0958'')
     = Inr [WindowOpen
              (js ''https://wa.me/+442079460958?text=Hello%20Asha!%20I'm%20reaching%20out%20to%20discuss%20how%20we%20can%20help%20with%20your%20needs.%20Would%20you%20have%20some%20time%20to%20chat%3F'')
              (js ''_blank'')]"
proof -
  let ?c = "sample_customer ''Asha'' '' 098765 43210 ''"
  let ?d = "sample_customer ''Asha'' ''office: +44 20 7946 0958''"
  have r: "re_match phone_re (trim (contact_info ?c)) = Some (js ''098765 43210'')"
    by code_simp
  have r': "re_match phone_re (trim (contact_info ?d)) = Some (js ''+44 20 7946 0958'')"
    by code_simp
  note list = handleWhatsApp_number[OF r, THEN conjunct1]
  note detail = handleWhatsApp_number[OF r, THEN conjunct2]
  note list' = handleWhatsApp_number[OF r', THEN conjunct1]
  have "handleWhatsApp ?c
     = Inr [WindowOpen
              (js ''https://wa.me/+9109876543210?text=Hello%20Asha!%20I'm%20reaching%20out%20to%20discuss%20how%20we%20can%20help%20with%20your%20needs.%20Would%20you%20have%20some%20time%20to%20chat%3F'')
              (js ''_blank'')]"
    unfolding list by code_simp
  moreover have "detail_handleWhatsApp (Some ?c)
     = Inr [WindowOpen
              (js ''https://wa.me/+9109876543210?text=Hello%20Asha%2C%20I'm%20reaching%20out%20regarding%20your%20insurance%20needs.%20How%20may%20I%20assist%20you%20today%3F'')
              (js ''_blank'')]"
    unfolding detail by code_simp
  moreover have "handleWhatsApp ?d
     = Inr [WindowOpen
              (js ''https://wa.me/+442079460958?text=Hello%20Asha!%20I'm%20reaching%20out%20to%20discuss%20how%20we%20can%20help%20with%20your%20needs.%20Would%20you%20have%20some%20time%20to%20chat%3F'')
              (js ''_blank'')]"
    unfolding list' by code_simp
  ultimately show ?thesis using r r' by (intro conjI)
qed

section \<open>Phone before email\<close>

lemma tel_not_mailto: "js ''tel:'' @ n \<noteq> js ''mailto:'' @ u"
  by (simp add: js_def)

lemma handleSMS_phone:
  assumes "re_match phone_re (trim (contact_info c)) = Some m"
  shows "handleSMS c =
     (case encodeURIComponent (sms_text c) of
        Inl e \<Rightarrow> Inl e
      | Inr t \<Rightarrow> Inr [WindowOpen (js ''sms:'' @ filter (\<lambda>x. \<not> is_space x \<and> x \<noteq> 0x2D) m
                                  @ js ''?body='' @ t) (js ''_blank'')])"
  using assms re_match_phone_nonempty[OF assms]
  by (simp add: handleSMS_def or_empty_id Let_def truthy_match_def tel_filter split: sum.split)

text \<open>
  C9, as the handlers have it. When the trimmed \<open>contact_info\<close> contains a substring
  that the phone pattern matches, \<open>handleCall\<close> navigates to a \<open>tel:\<close> address,
  whether or not there is an \<open>@\<close> as well; a navigation to a \<open>mailto:\<close> address
  happens only when the trimmed \<open>contact_info\<close> has no such substring.
\<close>

theorem phone_before_email:
  "(contains_match phone_re (trim (contact_info c)) \<longrightarrow>
      (\<exists>number. handleCall c = Inr [SetLocationHref (js ''tel:'' @ number)]
         \<and> detail_handleCall (Some c) = Inr [SetLocationHref (js ''tel:'' @ number)]))
   \<and> (\<forall>u. SetLocationHref (js ''mailto:'' @ u) \<in> set (effects_of (handleCall c))
           \<or> SetLocationHref (js ''mailto:'' @ u) \<in> set (effects_of (detail_handleCall (Some c)))
         \<longrightarrow> \<not> contains_match phone_re (trim (contact_info c)))"
proof -
  have tel: "\<exists>number. handleCall c = Inr [SetLocationHref (js ''tel:'' @ number)]
         \<and> detail_handleCall (Some c) = Inr [SetLocationHref (js ''tel:'' @ number)]"
    if "contains_match phone_re (trim (contact_info c))"
  proof -
    from that obtain m where m: "re_match phone_re (trim (contact_info c)) = Some m"
      unfolding contains_match_iff by blast
    from handleCall_phone[OF m] detail_handleCall_phone[OF m] show ?thesis by blast
  qed
  have "\<not> contains_match phone_re (trim (contact_info c))"
    if u: "SetLocationHref (js ''mailto:'' @ u) \<in> set (effects_of (handleCall c))
           \<or> SetLocationHref (js ''mailto:'' @ u) \<in> set (effects_of (detail_handleCall (Some c)))"
    for u
  proof
    assume "contains_match phone_re (trim (contact_info c))"
    from tel[OF this] obtain number where
      "handleCall c = Inr [SetLocationHref (js ''tel:'' @ number)]"
      "detail_handleCall (Some c) = Inr [SetLocationHref (js ''tel:'' @ number)]" by blast
    with u have "js ''mailto:'' @ u = js ''tel:'' @ number"
      by (auto simp: effects_of_def)
    with tel_not_mailto[of number u] show False by simp
  qed
  with tel show ?thesis by blast
qed

theorem phone_before_email_witness:
  "contains_match phone_re (trim (contact_info (sample_customer ''Asha'' ''asha@mail.in, +91 98765 43210'')))
   \<and> 0x40 \<in> set (contact_info (sample_customer ''Asha'' ''asha@mail.in, +91 98765 43210''))
   \<and> (\<exists>number. handleCall (sample_customer ''Asha'' ''asha@mail.in, +91 98765 43210'')
                  = Inr [SetLocationHref (js ''tel:'' @ number)])
   \<and> handleCall (sample_customer ''Asha'' ''asha@mail.in, +91 98765 43210'')
       = Inr [SetLocationHref (js ''tel:+919876543210'')]"
proof -
  let ?c = "sample_customer ''Asha'' ''asha@mail.in, +91 98765 43210''"
  have "re_match phone_re (trim (contact_info ?c)) \<noteq> None"
    by code_simp
  then have h: "contains_match phone_re (trim (contact_info ?c))"
    by (simp add: contains_match_iff)
  have a: "0x40 \<in> set (contact_info ?c)"
    by (simp add: sample_customer_def js_def)
  have v: "handleCall ?c = Inr [SetLocationHref (js ''tel:+919876543210'')]"
    by code_simp
  from phone_before_email[of ?c] h
  have "\<exists>number. handleCall ?c = Inr [SetLocationHref (js ''tel:'' @ number)]" by blast
  with h a v show ?thesis by (intro conjI)
qed

text \<open>
  C9 as stated speaks of the \<open>contact_info\<close> itself. A match that needs the white
  space at the end of the field is lost to \<open>trim\<close>: this customer's field has both a
  match and an \<open>@\<close>, and \<open>handleCall\<close> opens the mail client.
\<close>

theorem untrimmed_phone_match_goes_to_mailto:
  "re_match phone_re (contact_info (sample_customer ''Asha'' ''asha@mail.in 12345678 ''))
     = Some (js '' 12345678 '')
   \<and> contains_match phone_re (contact_info (sample_customer ''Asha'' ''asha@mail.in 12345678 ''))
   \<and> 0x40 \<in> set (contact_info (sample_customer ''Asha'' ''asha@mail.in 12345678 ''))
   \<and> handleCall (sample_customer ''Asha'' ''asha@mail.in 12345678 '')
       = Inr [SetLocationHref
                (js ''mailto:asha@mail.in 12345678?subject=Following%20up%20-%20Asha&body=Dear%20Asha%2C%0A%0AI%20hope%20this%20email%20finds%20you%20well.%0A%0AI'm%20reaching%20out%20to%20follow%20up%20on%20our%20previous%20conversation.%0A%0ABest%20regards%2C%0A%5BYour%20Name%5D'')]
   \<and> detail_handleCall (Some (sample_customer ''Asha'' ''asha@mail.in 12345678 ''))
       = Inr [SetLocationHref (js ''mailto:asha@mail.in'')]"
proof -
  let ?c = "sample_customer ''Asha'' ''asha@mail.in 12345678 ''"
  have r: "re_match phone_re (contact_info ?c) = Some (js '' 12345678 '')"
    by code_simp
  then have h: "contains_match phone_re (contact_info ?c)"
    by (simp add: contains_match_iff)
  have a: "0x40 \<in> set (contact_info ?c)"
    by (simp add: sample_customer_def js_def)
  have v: "handleCall ?c
       = Inr [SetLocationHref
                (js ''mailto:asha@mail.in 12345678?subject=Following%20up%20-%20Asha&body=Dear%20Asha%2C%0A%0AI%20hope%20this%20email%20finds%20you%20well.%0A%0AI'm%20reaching%20out%20to%20follow%20up%20on%20our%20previous%20conversation.%0A%0ABest%20regards%2C%0A%5BYour%20Name%5D'')]"
    by code_simp
  have d: "detail_handleCall (Some ?c) = Inr [SetLocationHref (js ''mailto:asha@mail.in'')]"
    by code_simp
  from r h a v d show ?thesis by (intro conjI)
qed

section \<open>A phone number without digits\<close>

text \<open>
  C10, as the handlers have it. Ten hyphens contain no digit and are a match of the
  phone pattern after trimming, so \<open>handleCall\<close> navigates to \<open>tel:\<close> with an empty
  number, \<open>handleSMS\<close> opens \<open>sms:\<close> with an empty number and \<open>handleWhatsApp\<close>
  opens the link of the number \<open>+91\<close> (unless encoding the customer's name throws).
\<close>

theorem digitless_phone_number:
  assumes "contact_info c = js ''----------''"
  shows "filter is_digit (contact_info c) = []
     \<and> contains_match phone_re (trim (contact_info c))
     \<and> handleCall c = Inr [SetLocationHref (js ''tel:'')]
     \<and> handleSMS c =
         (case encodeURIComponent (sms_text c) of
            Inl e \<Rightarrow> Inl e
          | Inr t \<Rightarrow> Inr [WindowOpen (js ''sms:?body='' @ t) (js ''_blank'')])
     \<and> handleWhatsApp c =
         (case encodeURIComponent (whatsapp_text c) of
            Inl e \<Rightarrow> Inl e
          | Inr t \<Rightarrow> Inr [WindowOpen (js ''https://wa.me/+91?text='' @ t) (js ''_blank'')])"
proof -
  have t: "trim (js ''----------'') = js ''----------''" by code_simp
  have "re_match phone_re (js ''----------'') = Some (js ''----------'')" by code_simp
  then have r: "re_match phone_re (trim (contact_info c)) = Some (js ''----------'')"
    by (simp only: assms t)
  have d: "filter is_digit (js ''----------'') = []" by code_simp
  have f: "filter (\<lambda>x. \<not> is_space x \<and> x \<noteq> 0x2D) (js ''----------'') = []" by code_simp
  have w: "whatsapp_number (trim (js ''----------'')) = js ''+91''" by code_simp
  have e: "js ''https://wa.me/'' @ js ''+91'' @ js ''?text='' @ x = js ''https://wa.me/+91?text='' @ x"
    for x by (simp add: js_def)
  have e2: "js ''sms:'' @ [] @ js ''?body='' @ x = js ''sms:?body='' @ x"
    for x by (simp add: js_def)
  have e3: "js ''tel:'' @ [] = js ''tel:''" by simp
  have "contains_match phone_re (trim (contact_info c))"
    using r by (simp add: contains_match_iff)
  moreover have "filter is_digit (contact_info c) = []" by (simp only: assms d)
  moreover have "handleCall c = Inr [SetLocationHref (js ''tel:'')]"
    using handleCall_phone[OF r] by (simp only: f e3)
  moreover have "handleSMS c =
         (case encodeURIComponent (sms_text c) of
            Inl e \<Rightarrow> Inl e
          | Inr t \<Rightarrow> Inr [WindowOpen (js ''sms:?body='' @ t) (js ''_blank'')])"
    using handleSMS_phone[OF r] by (simp only: f e2)
  moreover have "handleWhatsApp c =
         (case encodeURIComponent (whatsapp_text c) of
            Inl e \<Rightarrow> Inl e
          | Inr t \<Rightarrow> Inr [WindowOpen (js ''https://wa.me/+91?text='' @ t) (js ''_blank'')])"
    using handleWhatsApp_phone[OF r] by (simp only: w e)
  ultimately show ?thesis by (intro conjI)
qed

theorem digitless_phone_number_witness:
  "contact_info (sample_customer ''Asha'' ''----------'') = js ''----------''
   \<and> handleCall (sample_customer ''Asha'' ''----------'') = Inr [SetLocationHref (js ''tel:'')]
   \<and> handleSMS (sample_customer ''Asha'' ''----------'')
       = Inr [WindowOpen
                (js ''sms:?body=Hi%20Asha%2C%20this%20is%20a%20follow-up%20regarding%20our%20previous%20conversation.%20Please%20let%20me%20know%20a%20good%20time%20to%20connect.%20Thanks!'')
                (js ''_blank'')]
   \<and> handleWhatsApp (sample_customer ''Asha'' ''----------'')
       = Inr [WindowOpen
                (js ''https://wa.me/+91?text=Hello%20Asha!%20I'm%20reaching%20out%20to%20discuss%20how%20we%20can%20help%20with%20your%20needs.%20Would%20you%20have%20some%20time%20to%20chat%3F'')
                (js ''_blank'')]"
proof -
  let ?c = "sample_customer ''Asha'' ''----------''"
  have h: "contact_info ?c = js ''----------''" by (simp add: sample_customer_def)
  note at_c = digitless_phone_number[OF h]
  have s: "(case encodeURIComponent (sms_text ?c) of
            Inl e \<Rightarrow> Inl e
          | Inr t \<Rightarrow> Inr [WindowOpen (js ''sms:?body='' @ t) (js ''_blank'')])
       = Inr [WindowOpen
                (js ''sms:?body=Hi%20Asha%2C%20this%20is%20a%20follow-up%20regarding%20our%20previous%20conversation.%20Please%20let%20me%20know%20a%20good%20time%20to%20connect.%20Thanks!'')
                (js ''_blank'')]"
    by code_simp
  have w: "(case encodeURIComponent (whatsapp_text ?c) of
            Inl e \<Rightarrow> Inl e
          | Inr t \<Rightarrow> Inr [WindowOpen (js ''https://wa.me/+91?text='' @ t) (js ''_blank'')])
       = Inr [WindowOpen
                (js ''https://wa.me/+91?text=Hello%20Asha!%20I'm%20reaching%20out%20to%20discuss%20how%20we%20can%20help%20with%20your%20needs.%20Would%20you%20have%20some%20time%20to%20chat%3F'')
                (js ''_blank'')]"
    by code_simp
  from at_c h show ?thesis unfolding s w by (intro conjI) blast+
qed

text \<open>
  The other example of C10, ten spaces, is a match of the pattern as it stands, but
  \<open>trim\<close> empties it before the handlers match: all three take their fallback.
\<close>

theorem ten_spaces_take_the_fallbacks:
  "filter is_digit (js ''          '') = []
   \<and> re_match phone_re (js ''          '') = Some (js ''          '')
   \<and> handleCall (sample_customer ''Asha'' ''          '')
       = Inr [ClipboardWriteText [], Alert (js ''Contact copied to clipboard'')]
   \<and> handleSMS (sample_customer ''Asha'' ''          '')
       = Inr [Alert (js ''Invalid phone number for SMS'')]
   \<and> handleWhatsApp (sample_customer ''Asha'' ''          '')
       = Inr [Alert (js ''Invalid phone number for WhatsApp'')]"
proof -
  have "filter is_digit (js ''          '') = []" by code_simp
  moreover have "re_match phone_re (js ''          '') = Some (js ''          '')" by code_simp
  moreover have "handleCall (sample_customer ''Asha'' ''          '')
       = Inr [ClipboardWriteText [], Alert (js ''Contact copied to clipboard'')]" by code_simp
  moreover have "handleSMS (sample_customer ''Asha'' ''          '')
       = Inr [Alert (js ''Invalid phone number for SMS'')]" by code_simp
  moreover have "handleWhatsApp (sample_customer ''Asha'' ''          '')
       = Inr [Alert (js ''Invalid phone number for WhatsApp'')]" by code_simp
  ultimately show ?thesis by (intro conjI)
qed

section \<open>Searching the customer list\<close>

lemma startsWith_prefix: "startsWith s t \<longleftrightarrow> prefix t s"
  by (induction s t rule: startsWith.induct) auto

lemma includes_str_sublist: "includes_str s t \<longleftrightarrow> sublist t s"
  by (induction s) (auto simp: startsWith_prefix sublist_Cons_right)

text \<open>
  C3. The displayed list \<open>filteredCustomers\<close> is the fetched list filtered, in its
  order, by: the lower-cased search term is a substring of the lower-cased name or of
  the lower-cased \<open>contact_info\<close>. This holds whatever \<open>toLowerCase\<close> computes.
\<close>

theorem filteredCustomers_substring_search:
  "filteredCustomers toLowerCase cs q =
     filter (\<lambda>c. sublist (toLowerCase q) (toLowerCase (name c))
               \<or> sublist (toLowerCase q) (toLowerCase (contact_info c)))
       cs
   \<and> subseq (filteredCustomers toLowerCase cs q) cs"
  by (simp add: filteredCustomers_def includes_str_sublist)

theorem filteredCustomers_substring_search_witness:
  "filteredCustomers ascii_lower
     [sample_customer ''Asha Rao'' ''+91 98765 43210'', sample_customer ''Bala'' ''bala@mail.in'',
      sample_customer ''Chandra'' ''c.rao@mail.in'']
     (js ''RAO'')
   = [sample_customer ''Asha Rao'' ''+91 98765 43210'', sample_customer ''Chandra'' ''c.rao@mail.in'']
   \<and> filter (\<lambda>c. sublist (ascii_lower (js ''RAO'')) (ascii_lower (name c))
               \<or> sublist (ascii_lower (js ''RAO'')) (ascii_lower (contact_info c)))
       [sample_customer ''Asha Rao'' ''+91 98765 43210'', sample_customer ''Bala'' ''bala@mail.in'',
        sample_customer ''Chandra'' ''c.rao@mail.in'']
   = [sample_customer ''Asha Rao'' ''+91 98765 43210'', sample_customer ''Chandra'' ''c.rao@mail.in'']"
proof -
  let ?cs = "[sample_customer ''Asha Rao'' ''+91 98765 43210'', sample_customer ''Bala'' ''bala@mail.in'',
      sample_customer ''Chandra'' ''c.rao@mail.in'']"
  have v: "filteredCustomers ascii_lower ?cs (js ''RAO'')
     = [sample_customer ''Asha Rao'' ''+91 98765 43210'', sample_customer ''Chandra'' ''c.rao@mail.in'']"
    by code_simp
  note f = filteredCustomers_substring_search[of ascii_lower ?cs "js ''RAO''", THEN conjunct1]
  from v show ?thesis unfolding f[symmetric] by simp
qed

section \<open>One fetch per call, an error for every response that is not ok\<close>

lemma api_fetch_log: "snd (api_fetch e req failed log) = log @ [req]"
  by (simp add: api_fetch_def Let_def split: sum.split)

lemma api_fetch_not_ok:
  assumes "fetch e req = Inr r" and "\<not> ok r"
  shows "fst (api_fetch e req failed log) =
           Inl (Exn Error (failed @ js '': '' @ nat_to_str (status r) @ js '' '' @ statusText r
                           @ js '' - '' @ body_text r))"
  using assms by (simp add: api_fetch_def Let_def)

lemma api_fetch_ok:
  assumes "fetch e req = Inr r" and "ok r"
  shows "api_fetch e req failed log = (Inr r, log @ [req])"
  using assms by (simp add: api_fetch_def Let_def)

lemma sublist_middle: "sublist x (a @ b @ x @ c)"
  unfolding sublist_def by (metis append.assoc)

lemma invoke_log: "snd (invoke e m log) = log @ [request_of m]"
proof (cases "api_fetch e (request_of m) (failure_text m) log")
  case (Pair x l)
  with api_fetch_log[of e "request_of m" "failure_text m" log]
  have "l = log @ [request_of m]" by simp
  with Pair show ?thesis by (simp add: invoke_def split: sum.split)
qed

lemma invoke_not_ok:
  assumes "fetch e (request_of m) = Inr r" and "\<not> ok r"
  shows "fst (invoke e m log) =
           Inl (Exn Error (failure_text m @ js '': '' @ nat_to_str (status r) @ js '' ''
                           @ statusText r @ js '' - '' @ body_text r))"
proof (cases "api_fetch e (request_of m) (failure_text m) log")
  case (Pair x l)
  with api_fetch_not_ok[OF assms, of "failure_text m" log]
  have "x = Inl (Exn Error (failure_text m @ js '': '' @ nat_to_str (status r) @ js '' ''
                           @ statusText r @ js '' - '' @ body_text r))" by simp
  with Pair show ?thesis by (simp add: invoke_def)
qed

lemma previewWebsite_log:
  "snd (previewWebsite e uid t log) = log @ [preview_request uid t]"
proof (cases "api_fetch e (preview_request uid t) (js ''Failed to fetch website preview'') log")
  case (Pair x l)
  with api_fetch_log[of e "preview_request uid t" "js ''Failed to fetch website preview''" log]
  have "l = log @ [preview_request uid t]" by simp
  with Pair show ?thesis by (simp add: previewWebsite_def split: sum.split)
qed

lemma previewWebsite_not_ok:
  assumes "fetch e (preview_request uid t) = Inr r" and "\<not> ok r"
  shows "fst (previewWebsite e uid t log) =
           Inl (Exn Error (js ''Failed to fetch website preview'' @ js '': ''
                           @ nat_to_str (status r) @ js '' '' @ statusText r @ js '' - ''
                           @ body_text r))"
proof (cases "api_fetch e (preview_request uid t) (js ''Failed to fetch website preview'') log")
  case (Pair x l)
  with api_fetch_not_ok[OF assms, of "js ''Failed to fetch website preview''" log]
  have "x = Inl (Exn Error (js ''Failed to fetch website preview'' @ js '': ''
                           @ nat_to_str (status r) @ js '' '' @ statusText r @ js '' - ''
                           @ body_text r))" by simp
  with Pair show ?thesis by (simp add: previewWebsite_def)
qed

lemma previewWebsite_ok:
  assumes "fetch e (preview_request uid t) = Inr r" and "ok r"
  shows "previewWebsite e uid t log = (Inr (body_text r), log @ [preview_request uid t])"
  using api_fetch_ok[OF assms, of "js ''Failed to fetch website preview''" log]
  by (simp add: previewWebsite_def)

lemma previewWebsite_Inr:
  assumes "previewWebsite e uid t log = (Inr html, log')"
  shows "\<exists>r. fetch e (preview_request uid t) = Inr r \<and> ok r \<and> html = body_text r"
proof (cases "fetch e (preview_request uid t)")
  case (Inl err)
  with assms show ?thesis by (simp add: previewWebsite_def api_fetch_def Let_def)
next
  case (Inr r)
  show ?thesis
  proof (cases "ok r")
    case True
    from previewWebsite_ok[OF Inr True, of log] assms have "html = body_text r" by simp
    with Inr True show ?thesis by blast
  next
    case False
    with Inr assms show ?thesis by (simp add: previewWebsite_def api_fetch_def Let_def)
  qed
qed

text \<open>
  C5. Every method of \<open>ApiService\<close>, on every argument and in every environment,
  hands exactly one request to \<open>fetch\<close>, the one of its endpoint; and when the
  response is not ok it throws an \<open>Error\<close> whose message contains the status in
  decimal.
\<close>

theorem api_error_and_single_fetch:
  "snd (invoke e m log) = log @ [request_of m]
   \<and> snd (previewWebsite e uid t log) = log @ [preview_request uid t]
   \<and> (\<forall>r. fetch e (request_of m) = Inr r \<and> \<not> ok r \<longrightarrow>
          (\<exists>msg. fst (invoke e m log) = Inl (Exn Error msg) \<and> sublist (nat_to_str (status r)) msg))
   \<and> (\<forall>r. fetch e (preview_request uid t) = Inr r \<and> \<not> ok r \<longrightarrow>
          (\<exists>msg. fst (previewWebsite e uid t log) = Inl (Exn Error msg)
             \<and> sublist (nat_to_str (status r)) msg))"
proof (intro conjI allI impI)
  show "snd (invoke e m log) = log @ [request_of m]" by (rule invoke_log)
  show "snd (previewWebsite e uid t log) = log @ [preview_request uid t]"
    by (rule previewWebsite_log)
next
  fix r assume "fetch e (request_of m) = Inr r \<and> \<not> ok r"
  then have "fst (invoke e m log) =
           Inl (Exn Error (failure_text m @ js '': '' @ nat_to_str (status r) @ js '' ''
                           @ statusText r @ js '' - '' @ body_text r))"
    using invoke_not_ok by blast
  moreover have "sublist (nat_to_str (status r))
      (failure_text m @ js '': '' @ nat_to_str (status r) @ js '' ''
                           @ statusText r @ js '' - '' @ body_text r)"
    by (rule sublist_middle)
  ultimately show "\<exists>msg. fst (invoke e m log) = Inl (Exn Error msg)
     \<and> sublist (nat_to_str (status r)) msg" by blast
next
  fix r assume "fetch e (preview_request uid t) = Inr r \<and> \<not> ok r"
  then have "fst (previewWebsite e uid t log) =
           Inl (Exn Error (js ''Failed to fetch website preview'' @ js '': ''
                           @ nat_to_str (status r) @ js '' '' @ statusText r @ js '' - ''
                           @ body_text r))"
    using previewWebsite_not_ok by blast
  moreover have "sublist (nat_to_str (status r))
      (js ''Failed to fetch website preview'' @ js '': ''
                           @ nat_to_str (status r) @ js '' '' @ statusText r @ js '' - ''
                           @ body_text r)"
    by (rule sublist_middle)
  ultimately show "\<exists>msg. fst (previewWebsite e uid t log) = Inl (Exn Error msg)
     \<and> sublist (nat_to_str (status r)) msg" by blast
qed

theorem api_error_and_single_fetch_witness:
  "fetch (sample_env \<lparr>status = 404, statusText = js ''Not Found'', body_text = js ''no such customer''\<rparr>)
       (request_of (getCustomer 7))
     = Inr \<lparr>status = 404, statusText = js ''Not Found'', body_text = js ''no such customer''\<rparr>
   \<and> \<not> ok \<lparr>status = 404, statusText = js ''Not Found'', body_text = js ''no such customer''\<rparr>
   \<and> (\<exists>msg. fst (invoke (sample_env \<lparr>status = 404, statusText = js ''Not Found'',
                                  body_text = js ''no such customer''\<rparr>) (getCustomer 7) [])
               = Inl (Exn Error msg)
          \<and> sublist (js ''404'') msg)
   \<and> map url (snd (invoke (sample_env \<lparr>status = 404, statusText = js ''Not Found'',
                                  body_text = js ''no such customer''\<rparr>) (getCustomer 7) []))
       = [js ''http://localhost:8000/customers/7'']"
proof -
  let ?r = "\<lparr>status = 404, statusText = js ''Not Found'', body_text = js ''no such customer''\<rparr>"
  have f: "fetch (sample_env ?r) (request_of (getCustomer 7)) = Inr ?r"
    by (simp add: sample_env_def)
  have n: "\<not> ok ?r" by (simp add: ok_def)
  have s: "nat_to_str (status ?r) = js ''404''" by (simp add: js_def)
  have u: "map url ([] @ [request_of (getCustomer 7)]) = [js ''http://localhost:8000/customers/7'']"
    by (simp add: get_def API_BASE_URL_def int_to_str_def js_def)
  note at_404 = api_error_and_single_fetch[of "sample_env ?r" "getCustomer 7" "[]" 7 "[]"]
  from at_404 have l: "snd (invoke (sample_env ?r) (getCustomer 7) []) = [] @ [request_of (getCustomer 7)]"
    by (rule conjunct1)
  from at_404 have "\<forall>r. fetch (sample_env ?r) (request_of (getCustomer 7)) = Inr r \<and> \<not> ok r \<longrightarrow>
          (\<exists>msg. fst (invoke (sample_env ?r) (getCustomer 7) []) = Inl (Exn Error msg)
             \<and> sublist (nat_to_str (status r)) msg)"
    by (rule conjunct2[THEN conjunct2, THEN conjunct1])
  then have "fetch (sample_env ?r) (request_of (getCustomer 7)) = Inr ?r \<and> \<not> ok ?r \<longrightarrow>
          (\<exists>msg. fst (invoke (sample_env ?r) (getCustomer 7) []) = Inl (Exn Error msg)
             \<and> sublist (nat_to_str (status ?r)) msg)"
    by (rule spec)
  with f n have m: "\<exists>msg. fst (invoke (sample_env ?r) (getCustomer 7) []) = Inl (Exn Error msg)
             \<and> sublist (js ''404'') msg"
    unfolding s by blast
  from f n m u show ?thesis unfolding l by (intro conjI)
qed


section \<open>Required fields of the new-customer form\<close>

text \<open>
  C4. When the name or the \<open>contact_info\<close> of the form is empty,
  \<open>handleAddCustomer\<close> makes no request, sets the error to
  \<open>Name and contact info are required\<close> and changes nothing else, the customer list
  included. When both are filled it makes exactly one request, the creation of the
  customer.
\<close>

theorem handleAddCustomer_requires_fields:
  "(nc_name (newCustomer st) = [] \<or> nc_contact_info (newCustomer st) = [] \<longrightarrow>
      handleAddCustomer e as_customer userId st log
        = (st\<lparr>error := js ''Name and contact info are required''\<rparr>, log)
      \<and> customers (fst (handleAddCustomer e as_customer userId st log)) = customers st
      \<and> snd (handleAddCustomer e as_customer userId st log) = log)
   \<and> (nc_name (newCustomer st) \<noteq> [] \<and> nc_contact_info (newCustomer st) \<noteq> [] \<longrightarrow>
      snd (handleAddCustomer e as_customer userId st log)
        = log @ [request_of (createCustomer
                   (JObj [(js ''name'', JStr (nc_name (newCustomer st))),
                          (js ''contact_info'', JStr (nc_contact_info (newCustomer st))),
                          (js ''notes'', JStr (nc_notes (newCustomer st))),
                          (js ''user_id'',
                           JNum (case parseInt e userId of
                                   None \<Rightarrow> 1
                                 | Some n \<Rightarrow> if n = 0 then 1 else n))]))])"
proof (intro conjI impI)
  assume a: "nc_name (newCustomer st) = [] \<or> nc_contact_info (newCustomer st) = []"
  then show eq: "handleAddCustomer e as_customer userId st log
        = (st\<lparr>error := js ''Name and contact info are required''\<rparr>, log)"
    by (auto simp: handleAddCustomer_def)
  show "customers (fst (handleAddCustomer e as_customer userId st log)) = customers st"
    unfolding eq by simp
  show "snd (handleAddCustomer e as_customer userId st log) = log"
    unfolding eq by simp
next
  let ?data = "JObj [(js ''name'', JStr (nc_name (newCustomer st))),
                          (js ''contact_info'', JStr (nc_contact_info (newCustomer st))),
                          (js ''notes'', JStr (nc_notes (newCustomer st))),
                          (js ''user_id'',
                           JNum (case parseInt e userId of
                                   None \<Rightarrow> 1
                                 | Some n \<Rightarrow> if n = 0 then 1 else n))]"
  assume b: "nc_name (newCustomer st) \<noteq> [] \<and> nc_contact_info (newCustomer st) \<noteq> []"
  obtain x l where p: "invoke e (createCustomer ?data) log = (x, l)"
    by (cases "invoke e (createCustomer ?data) log")
  with invoke_log[of e "createCustomer ?data" log]
  have l: "l = log @ [request_of (createCustomer ?data)]" by simp
  from b p show "snd (handleAddCustomer e as_customer userId st log)
      = log @ [request_of (createCustomer ?data)]"
    unfolding l by (cases x) (simp_all add: handleAddCustomer_def Let_def)
qed


theorem handleAddCustomer_requires_fields_witness:
  "nc_contact_info (newCustomer (sample_page ''Asha'' '''')) = []
   \<and> snd (handleAddCustomer (sample_env \<lparr>status = 201, statusText = js ''Created'', body_text = js ''{}''\<rparr>)
            (\<lambda>v. sample_customer ''Asha'' ''+91 98765 43210'') (js ''7'') (sample_page ''Asha'' '''') [])
       = []
   \<and> error (fst (handleAddCustomer (sample_env \<lparr>status = 201, statusText = js ''Created'', body_text = js ''{}''\<rparr>)
            (\<lambda>v. sample_customer ''Asha'' ''+91 98765 43210'') (js ''7'') (sample_page ''Asha'' '''') []))
       = js ''Name and contact info are required''
   \<and> nc_name (newCustomer (sample_page ''Asha'' ''+91 98765 43210'')) \<noteq> []
   \<and> nc_contact_info (newCustomer (sample_page ''Asha'' ''+91 98765 43210'')) \<noteq> []
   \<and> map url (snd (handleAddCustomer (sample_env \<lparr>status = 201, statusText = js ''Created'', body_text = js ''{}''\<rparr>)
            (\<lambda>v. sample_customer ''Asha'' ''+91 98765 43210'') (js ''7'')
            (sample_page ''Asha'' ''+91 98765 43210'') []))
       = [js ''http://localhost:8000/customers/'']
   \<and> map req_body (snd (handleAddCustomer (sample_env \<lparr>status = 201, statusText = js ''Created'', body_text = js ''{}''\<rparr>)
            (\<lambda>v. sample_customer ''Asha'' ''+91 98765 43210'') (js ''7'')
            (sample_page ''Asha'' ''+91 98765 43210'') []))
       = [Some (JSON_stringify
                  (JObj [(js ''name'', JStr (js ''Asha'')),
                         (js ''contact_info'', JStr (js ''+91 98765 43210'')),
                         (js ''notes'', JStr []), (js ''user_id'', JNum 7)]))]"
proof -
  let ?e = "sample_env \<lparr>status = 201, statusText = js ''Created'', body_text = js ''{}''\<rparr>"
  let ?cast = "\<lambda>v::jsval. sample_customer ''Asha'' ''+91 98765 43210''"
  have a: "nc_contact_info (newCustomer (sample_page ''Asha'' '''')) = []"
    by (simp add: sample_page_def js_def)
  have b: "nc_name (newCustomer (sample_page ''Asha'' ''+91 98765 43210'')) \<noteq> []
     \<and> nc_contact_info (newCustomer (sample_page ''Asha'' ''+91 98765 43210'')) \<noteq> []"
    by (simp add: sample_page_def js_def)
  from a handleAddCustomer_requires_fields[of "sample_page ''Asha'' ''''" ?e ?cast "js ''7''" "[]"]
  have 1: "handleAddCustomer ?e ?cast (js ''7'') (sample_page ''Asha'' '''') []
        = ((sample_page ''Asha'' '''')\<lparr>error := js ''Name and contact info are required''\<rparr>, [])"
    by blast
  from b handleAddCustomer_requires_fields[of "sample_page ''Asha'' ''+91 98765 43210''" ?e ?cast "js ''7''" "[]"]
  have 2: "snd (handleAddCustomer ?e ?cast (js ''7'') (sample_page ''Asha'' ''+91 98765 43210'') [])
        = [] @ [request_of (createCustomer
                   (JObj [(js ''name'', JStr (nc_name (newCustomer (sample_page ''Asha'' ''+91 98765 43210'')))),
                          (js ''contact_info'', JStr (nc_contact_info (newCustomer (sample_page ''Asha'' ''+91 98765 43210'')))),
                          (js ''notes'', JStr (nc_notes (newCustomer (sample_page ''Asha'' ''+91 98765 43210'')))),
                          (js ''user_id'',
                           JNum (case parseInt ?e (js ''7'') of
                                   None \<Rightarrow> 1
                                 | Some n \<Rightarrow> if n = 0 then 1 else n))]))]"
    by blast
  have 3: "map url (snd (handleAddCustomer ?e ?cast (js ''7'') (sample_page ''Asha'' ''+91 98765 43210'') []))
       = [js ''http://localhost:8000/customers/'']"
    unfolding 2 by (simp add: send_json_def API_BASE_URL_def js_def)
  have "js_parseInt (js ''7'') = Some 7" by code_simp
  then have pi: "parseInt ?e (js ''7'') = Some 7" by (simp add: sample_env_def)
  have 4: "map req_body (snd (handleAddCustomer ?e ?cast (js ''7'') (sample_page ''Asha'' ''+91 98765 43210'') []))
       = [Some (JSON_stringify
                  (JObj [(js ''name'', JStr (js ''Asha'')),
                         (js ''contact_info'', JStr (js ''+91 98765 43210'')),
                         (js ''notes'', JStr []), (js ''user_id'', JNum 7)]))]"
    unfolding 2 pi by (simp add: send_json_def sample_page_def)
  from a b 3 4 show ?thesis unfolding 1 by simp
qed


section \<open>The preview is the server's HTML\<close>

text \<open>
  C7. \<open>previewWebsite\<close> asks the preview endpoint of the given template and, on a
  response that is ok, returns its body as it is. Whatever \<open>handlePreviewWebsite\<close>
  writes into the preview window is the body of such a response for the selected
  template; and it does write it when a user is stored, the body is not empty and the
  window opens.
\<close>

theorem preview_is_verbatim:
  "url (preview_request uid t) =
      API_BASE_URL @ js ''/digital-presence/website/'' @ int_to_str uid @ js ''/preview/'' @ t
   \<and> (\<forall>r. fetch e (preview_request uid t) = Inr r \<and> ok r \<longrightarrow>
         previewWebsite e uid t log = (Inr (body_text r), log @ [preview_request uid t]))
   \<and> (\<forall>html. DocumentWrite html \<in> set (fst (snd (handlePreviewWebsite e popup userStr st log)))
         \<longrightarrow> (\<exists>uid r. fetch e (preview_request uid (selectedTemplate st)) = Inr r \<and> ok r
                 \<and> html = body_text r))
   \<and> (\<forall>s uid r. userStr = Some s \<and> s \<noteq> [] \<and> stored_user_id e s = Inr (Some uid) \<and> uid \<noteq> 0
          \<and> fetch e (preview_request uid (selectedTemplate st)) = Inr r \<and> ok r
          \<and> body_text r \<noteq> [] \<longrightarrow>
        handlePreviewWebsite e True userStr st log
          = (st, [WindowOpen [] (js ''_blank''), DocumentWrite (body_text r), DocumentClose],
             log @ [preview_request uid (selectedTemplate st)]))"
proof (intro conjI allI impI)
  show "url (preview_request uid t) =
      API_BASE_URL @ js ''/digital-presence/website/'' @ int_to_str uid @ js ''/preview/'' @ t"
    by (simp add: preview_request_def get_def)
next
  fix r assume "fetch e (preview_request uid t) = Inr r \<and> ok r"
  then show "previewWebsite e uid t log = (Inr (body_text r), log @ [preview_request uid t])"
    using previewWebsite_ok by blast
next
  fix html
  assume w: "DocumentWrite html \<in> set (fst (snd (handlePreviewWebsite e popup userStr st log)))"
  show "\<exists>uid r. fetch e (preview_request uid (selectedTemplate st)) = Inr r \<and> ok r
                 \<and> html = body_text r"
  proof (cases "case userStr of None \<Rightarrow> None | Some s \<Rightarrow> if s = [] then None else Some s")
    case None
    with w show ?thesis by (simp add: handlePreviewWebsite_def)
  next
    case (Some s)
    note s = this
    show ?thesis
    proof (cases "stored_user_id e s")
      case (Inl err)
      with w s show ?thesis by (simp add: handlePreviewWebsite_def)
    next
      case (Inr user_dot_id)
      note i = this
      show ?thesis
      proof (cases "case user_dot_id of None \<Rightarrow> None | Some n \<Rightarrow> if n = 0 then None else Some n")
        case None
        with w s i show ?thesis by (simp add: handlePreviewWebsite_def)
      next
        case (Some uid')
        note u = this
        obtain x l where p: "previewWebsite e uid' (selectedTemplate st) log = (x, l)"
          by (cases "previewWebsite e uid' (selectedTemplate st) log")
        show ?thesis
        proof (cases x)
          case (Inl err)
          with w s i u p show ?thesis by (simp add: handlePreviewWebsite_def)
        next
          case (Inr h)
          with w s i u p have "html = h"
            by (simp add: handlePreviewWebsite_def split: if_splits)
          with p Inr have "previewWebsite e uid' (selectedTemplate st) log = (Inr html, l)"
            by simp
          from previewWebsite_Inr[OF this] show ?thesis by blast
        qed
      qed
    qed
  qed
next
  fix s uid r
  assume a: "userStr = Some s \<and> s \<noteq> [] \<and> stored_user_id e s = Inr (Some uid) \<and> uid \<noteq> 0
          \<and> fetch e (preview_request uid (selectedTemplate st)) = Inr r \<and> ok r
          \<and> body_text r \<noteq> []"
  then have "previewWebsite e uid (selectedTemplate st) log
      = (Inr (body_text r), log @ [preview_request uid (selectedTemplate st)])"
    using previewWebsite_ok by blast
  with a show "handlePreviewWebsite e True userStr st log
          = (st, [WindowOpen [] (js ''_blank''), DocumentWrite (body_text r), DocumentClose],
             log @ [preview_request uid (selectedTemplate st)])"
    by (simp add: handlePreviewWebsite_def)
qed

theorem preview_is_verbatim_witness:
  "stored_user_id
       (sample_env \<lparr>status = 200, statusText = js ''OK'', body_text = js ''<h1>Asha Tailors</h1>''\<rparr>)
       stored_user_7
     = Inr (Some 7)
   \<and> fetch (sample_env \<lparr>status = 200, statusText = js ''OK'', body_text = js ''<h1>Asha Tailors</h1>''\<rparr>)
       (preview_request 7 (selectedTemplate sample_builder))
     = Inr \<lparr>status = 200, statusText = js ''OK'', body_text = js ''<h1>Asha Tailors</h1>''\<rparr>
   \<and> ok \<lparr>status = 200, statusText = js ''OK'', body_text = js ''<h1>Asha Tailors</h1>''\<rparr>
   \<and> handlePreviewWebsite
         (sample_env \<lparr>status = 200, statusText = js ''OK'', body_text = js ''<h1>Asha Tailors</h1>''\<rparr>)
         True (Some stored_user_7) sample_builder []
       = (sample_builder,
          [WindowOpen [] (js ''_blank''), DocumentWrite (js ''<h1>Asha Tailors</h1>''), DocumentClose],
          [preview_request 7 (js ''professional'')])
   \<and> url (preview_request 7 (js ''professional''))
       = js ''http://localhost:8000/digital-presence/website/7/preview/professional''"
proof -
  let ?r = "\<lparr>status = 200, statusText = js ''OK'', body_text = js ''<h1>Asha Tailors</h1>''\<rparr>"
  let ?e = "sample_env ?r"
  have p: "sample_stored_user_id stored_user_7 = Inr (Some 7)"
    by code_simp
  then have i: "stored_user_id ?e stored_user_7 = Inr (Some 7)"
    by (simp add: sample_env_def)
  have ne: "stored_user_7 \<noteq> []"
    by (simp add: stored_user_7_def id_member_def js_def)
  have f: "fetch ?e (preview_request 7 (selectedTemplate sample_builder)) = Inr ?r"
    by (simp add: sample_env_def)
  have k: "ok ?r" by (simp add: ok_def)
  have b: "body_text ?r \<noteq> []" by (simp add: js_def)
  have h: "Some stored_user_7 = Some stored_user_7 \<and> stored_user_7 \<noteq> []
     \<and> stored_user_id ?e stored_user_7 = Inr (Some 7) \<and> (7::int) \<noteq> 0
     \<and> fetch ?e (preview_request 7 (selectedTemplate sample_builder)) = Inr ?r \<and> ok ?r
     \<and> body_text ?r \<noteq> []"
    using i ne f k b by (intro conjI) simp_all
  have t: "selectedTemplate sample_builder = js ''professional''"
    by (simp add: sample_builder_def)
  have u: "url (preview_request 7 (js ''professional''))
       = js ''http://localhost:8000/digital-presence/website/7/preview/professional''"
    by (simp add: preview_request_def get_def API_BASE_URL_def int_to_str_def js_def)
  from preview_is_verbatim[of 7 "js ''professional''" ?e "[]" True "Some stored_user_7" sample_builder] h
  have "handlePreviewWebsite ?e True (Some stored_user_7) sample_builder []
          = (sample_builder, [WindowOpen [] (js ''_blank''), DocumentWrite (body_text ?r), DocumentClose],
             [] @ [preview_request 7 (selectedTemplate sample_builder)])"
    by blast
  with i f k u show ?thesis by (simp add: t)
qed

end
